theory Spec2Isabelle
  imports Main
begin

section \<open>Values of the Go program\<close>

text \<open>
  A Go \<^verbatim>\<open>[]byte\<close> and a Go \<^verbatim>\<open>string\<close> are both sequences of bytes.
  An \<^verbatim>\<open>error\<close> value is opaque to the program: it is only compared with
  \<^verbatim>\<open>nil\<close>, printed, or wrapped (\<^verbatim>\<open>errors.Wrap\<close>).
\<close>

type_synonym bytes = "char list"

datatype err = Err string | Wrap err string

text \<open>
  A run-time panic. The functions below can raise two: the bounds check of the slice
  expression \<^verbatim>\<open>container.ID[:12]\<close>, and the dereference of a nil pointer
  (\<^verbatim>\<open>details.Config\<close> of an inspect answer that carries no configuration, and
  \<^verbatim>\<open>b.minio\<close> when the object-store client was never constructed). A call either
  returns or panics.
\<close>

datatype panic = SliceBoundsOutOfRange | NilDereference

datatype completion = Returned | Panicked panic

text \<open>\<^verbatim>\<open>types.Container\<close>, with the fields the program reads.\<close>

record container =
  ID :: string
  Names :: "string list"
  Labels :: "string \<rightharpoonup> string"

text \<open>\<^verbatim>\<open>s[:12]\<close>: the first 12 bytes of \<open>s\<close>, a panic when \<open>s\<close> has fewer.\<close>

definition slice12 :: "string \<Rightarrow> panic + string" where
  "slice12 s = (if length s < 12 then Inl SliceBoundsOutOfRange else Inr (take 12 s))"

text \<open>\<^verbatim>\<open>strings.TrimPrefix(s, prefix)\<close>\<close>

definition TrimPrefix :: "string \<Rightarrow> string \<Rightarrow> string" where
  "TrimPrefix s prefix =
     (if take (length prefix) s = prefix then drop (length prefix) s else s)"

text \<open>
  \<^verbatim>\<open>strings.SplitN(s, sep, 2)\<close> for a separator of one byte: the text before the
  first separator and the whole text after it, or \<open>s\<close> alone when it holds no separator.
\<close>

definition SplitN2 :: "string \<Rightarrow> char \<Rightarrow> string list" where
  "SplitN2 s sep =
     (if sep \<in> set s
      then [takeWhile (\<lambda>c. c \<noteq> sep) s, tl (dropWhile (\<lambda>c. c \<noteq> sep) s)]
      else [s])"

section \<open>NameResolver\<close>

text \<open>
  \<^verbatim>\<open>
  func getAppName(container types.Container) (appName string) {
      if value, ok := container.Labels["postgres-backup/app-name"]; ok { return value }
      if len(container.Names) > 0 { return container.Names[0] }
      return container.ID[:12]
  }
  \<close>
\<close>

definition getAppName :: "container \<Rightarrow> panic + string" where
  "getAppName c =
     (case Labels c ''postgres-backup/app-name'' of
        Some v \<Rightarrow> Inr v
      | None \<Rightarrow>
          (if length (Names c) > 0 then Inr (Names c ! 0)
           else slice12 (ID c)))"

text \<open>
  \<^verbatim>\<open>src/main.go\<close> holds an earlier version of the program. Its \<^verbatim>\<open>getAppName\<close>
  is the same function but for the label it reads, the one with the empty key:
  \<^verbatim>\<open>if value, ok := container.Labels[""]; ok { return value }\<close>.
\<close>

definition getAppName_main_go :: "container \<Rightarrow> panic + string" where
  "getAppName_main_go c =
     (case Labels c '''' of
        Some v \<Rightarrow> Inr v
      | None \<Rightarrow>
          (if length (Names c) > 0 then Inr (Names c ! 0)
           else slice12 (ID c)))"

text \<open>
  The loop over \<^verbatim>\<open>details.Config.Env\<close>, which \<^verbatim>\<open>getDatabaseName\<close> and
  \<^verbatim>\<open>getDatabaseUser\<close> both contain and which differs only in the key compared:
  \<^verbatim>\<open>
  for _, value := range details.Config.Env {
      splits := strings.SplitN(value, "=", 2)
      if len(splits) != 2 { return "postgres" }
      if splits[0] == KEY { return splits[1] }
  }
  return "postgres"
  \<close>
\<close>

fun rangeEnv :: "string \<Rightarrow> string list \<Rightarrow> string" where
  "rangeEnv key [] = ''postgres''"
| "rangeEnv key (v # rest) =
     (let splits = SplitN2 v (CHR ''='') in
      if length splits \<noteq> 2 then ''postgres''
      else if splits ! 0 = key then splits ! 1
      else rangeEnv key rest)"

section \<open>ArchiveDecoder\<close>

text \<open>
  \<^verbatim>\<open>archive/tar\<close> is Go's standard library, not code of this program. Its reader is
  taken as what the program sees of it: the successive results of \<^verbatim>\<open>tarReader.Next()\<close>.
  Each element of a \<open>tar_stream\<close> is one such result: an error, a nil header with a nil
  error, or a header together with what \<^verbatim>\<open>io.ReadAll(tarReader)\<close> returns for that
  entry. The end of the list is \<^verbatim>\<open>io.EOF\<close>.
\<close>

record header =
  Typeflag :: char
  Name :: string

definition TypeReg :: char where
  "TypeReg = CHR ''0''"

datatype next_result =
    NextErr err
  | NextNil
  | Entry header "err + bytes"

type_synonym tar_stream = "next_result list"

text \<open>
  \<^verbatim>\<open>
  for {
      header, err := tarReader.Next()
      switch {
      case err == io.EOF: return fileMap, nil
      case err != nil:    return nil, err
      case header == nil: continue
      }
      if header.Typeflag == tar.TypeReg {
          contents, err := io.ReadAll(tarReader)
          if err != nil { return nil, errors.Wrap(err, "unable to extract tar file") }
          path := strings.TrimPrefix(header.Name, "/")
          fileMap[path] = contents
      }
  }
  \<close>
\<close>

fun untarLoop :: "tar_stream \<Rightarrow> (string \<rightharpoonup> bytes) \<Rightarrow> err + (string \<rightharpoonup> bytes)" where
  "untarLoop [] fileMap = Inr fileMap"
| "untarLoop (NextErr e # rest) fileMap = Inl e"
| "untarLoop (NextNil # rest) fileMap = untarLoop rest fileMap"
| "untarLoop (Entry h body # rest) fileMap =
     (if Typeflag h = TypeReg then
        (case body of
           Inl e \<Rightarrow> Inl (Wrap e ''unable to extract tar file'')
         | Inr contents \<Rightarrow> untarLoop rest (fileMap(TrimPrefix (Name h) ''/'' \<mapsto> contents)))
      else untarLoop rest fileMap)"

definition UntarReaderToMem :: "tar_stream \<Rightarrow> err + (string \<rightharpoonup> bytes)" where
  "UntarReaderToMem reader = untarLoop reader Map.empty"

section \<open>The container runtime, the object store and the clock\<close>

text \<open>
  What the program prints or logs, and the puts it issues, in order.
\<close>

datatype event =
    StartScan                       \<comment> \<open>\<^verbatim>\<open>b.log.Println("Start containers scan")\<close>\<close>
  | ListFailed err                  \<comment> \<open>\<^verbatim>\<open>fmt.Println("Failed to list containers:", err)\<close>\<close>
  | StartBackup string              \<comment> \<open>\<^verbatim>\<open>b.log.Println("Starting backup for container", container.ID[:12])\<close>\<close>
  | TimedOut string                 \<comment> \<open>\<^verbatim>\<open>b.log.Println("Timed out waiting for exec", execID)\<close>\<close>
  | DumpFailed string err           \<comment> \<open>\<^verbatim>\<open>log.Println("Failed to dump data for", container.ID[:12], ":", err)\<close>\<close>
  | Put string string bytes         \<comment> \<open>\<^verbatim>\<open>b.minio.PutObject(b.ctx, bucket, key, bytes.NewReader(payload), -1, ...)\<close>\<close>
  | UploadFailed string err         \<comment> \<open>\<^verbatim>\<open>b.log.Println("Failed to upload backup file for", appName, ":", err)\<close>\<close>
  | Uploaded string                 \<comment> \<open>\<^verbatim>\<open>b.log.Println("Uploaded backup file", info.Location)\<close>\<close>
  | FinishedBackup string           \<comment> \<open>\<^verbatim>\<open>b.log.Println("Finished backup for container", container.ID[:12])\<close>\<close>
  | EndScan                         \<comment> \<open>\<^verbatim>\<open>b.log.Println("End containers scan")\<close>\<close>

text \<open>\<^verbatim>\<open>minio.UploadInfo\<close>, with the field the program reads.\<close>

record upload_info =
  Location :: string

text \<open>
  One call of \<^verbatim>\<open>b.cli.ContainerExecInspect(b.ctx, execID)\<close> by the polling goroutine:
  the \<^verbatim>\<open>Running\<close> field of the value returned, the error returned, and the
  milliseconds the call took.
\<close>

record poll =
  Running :: bool
  pollErr :: "err option"
  took :: nat

text \<open>
  \<^verbatim>\<open>Backuper\<close>: the Docker client, the MinIO client, the clock and the options, as the
  answers they give. \<open>'w\<close> is the state of the world outside the program; each call
  returns its answer and the world after it. Where the program reads the value returned
  beside a non-nil error (\<^verbatim>\<open>ContainerList\<close>, \<^verbatim>\<open>PutObject\<close>) the answer is Go's pair;
  where it reads the value only after checking that the error is nil the answer is a sum.

  A successful answer of \<^verbatim>\<open>ContainerInspect\<close> is the \<^verbatim>\<open>Env\<close> of its
  \<^verbatim>\<open>Config\<close>, or \<open>None\<close> when its \<^verbatim>\<open>Config\<close> pointer is nil. \<open>minio\<close> is
  \<^verbatim>\<open>b.minio\<close>: \<open>None\<close> when it is nil, which is what \<^verbatim>\<open>NewBackuper\<close> leaves
  there when \<^verbatim>\<open>minio.New\<close> fails (it drops the error), and otherwise the client's
  \<^verbatim>\<open>PutObject\<close>. \<^verbatim>\<open>b.cli\<close> and \<^verbatim>\<open>b.log\<close> are never nil
  (\<^verbatim>\<open>NewBackuper\<close> panics without a Docker client), and a successful
  \<^verbatim>\<open>CopyFromContainer\<close> is taken to return a reader.

  The polling goroutine runs beside the main flow, so its calls are answered from the world
  in which the wait began, by call number, and do not change the world; \<open>Elapse ms\<close> is
  what the passing of \<open>ms\<close> milliseconds does to the world. \<open>TimerOnTie\<close> is the
  choice \<^verbatim>\<open>select\<close> makes when both of its cases are ready at the same instant.
  \<open>Now_RFC3339\<close> is \<^verbatim>\<open>time.Now().Format(time.RFC3339)\<close>.
\<close>

record 'w backuper =
  ContainerList :: "'w \<Rightarrow> (container list \<times> err option) \<times> 'w"
  ContainerInspect :: "string \<Rightarrow> 'w \<Rightarrow> (err + string list option) \<times> 'w"
  ContainerExecCreate :: "string \<Rightarrow> string list \<Rightarrow> 'w \<Rightarrow> (err + string) \<times> 'w"
  ContainerExecStart :: "string \<Rightarrow> 'w \<Rightarrow> err option \<times> 'w"
  ContainerExecInspect :: "string \<Rightarrow> 'w \<Rightarrow> nat \<Rightarrow> poll"
  TimerOnTie :: "'w \<Rightarrow> bool"
  Elapse :: "nat \<Rightarrow> 'w \<Rightarrow> 'w"
  CopyFromContainer :: "string \<Rightarrow> string \<Rightarrow> 'w \<Rightarrow> (err + tar_stream) \<times> 'w"
  Now_RFC3339 :: "'w \<Rightarrow> string \<times> 'w"
  minio :: "(string \<Rightarrow> string \<Rightarrow> bytes \<Rightarrow> 'w \<Rightarrow> (upload_info \<times> err option) \<times> 'w) option"
  bucket :: string

section \<open>NameResolver: database name and user\<close>

text \<open>
  \<^verbatim>\<open>
  func (b *Backuper) getDatabaseName(container types.Container) string {
      if value, ok := container.Labels["postgres-backup/db-name"]; ok { return value }
      details, err := b.cli.ContainerInspect(b.ctx, container.ID)
      if err != nil { return "postgres" }
      for _, value := range details.Config.Env { ... "POSTGRES_DB" ... }
      return "postgres"
  }
  \<close>
  and the same for \<^verbatim>\<open>getDatabaseUser\<close> with \<^verbatim>\<open>postgres-backup/db-user\<close> and
  \<^verbatim>\<open>POSTGRES_USER\<close>. \<^verbatim>\<open>details.Config\<close> is a pointer: reading its \<^verbatim>\<open>Env\<close>
  panics when it is nil.
\<close>

definition getDatabaseName :: "'w backuper \<Rightarrow> container \<Rightarrow> 'w \<Rightarrow> (panic + string) \<times> 'w" where
  "getDatabaseName b c w =
     (case Labels c ''postgres-backup/db-name'' of
        Some v \<Rightarrow> (Inr v, w)
      | None \<Rightarrow>
          (case ContainerInspect b (ID c) w of
             (Inl e, w1) \<Rightarrow> (Inr ''postgres'', w1)
           | (Inr None, w1) \<Rightarrow> (Inl NilDereference, w1)
           | (Inr (Some env), w1) \<Rightarrow> (Inr (rangeEnv ''POSTGRES_DB'' env), w1)))"

definition getDatabaseUser :: "'w backuper \<Rightarrow> container \<Rightarrow> 'w \<Rightarrow> (panic + string) \<times> 'w" where
  "getDatabaseUser b c w =
     (case Labels c ''postgres-backup/db-user'' of
        Some v \<Rightarrow> (Inr v, w)
      | None \<Rightarrow>
          (case ContainerInspect b (ID c) w of
             (Inl e, w1) \<Rightarrow> (Inr ''postgres'', w1)
           | (Inr None, w1) \<Rightarrow> (Inl NilDereference, w1)
           | (Inr (Some env), w1) \<Rightarrow> (Inr (rangeEnv ''POSTGRES_USER'' env), w1)))"

section \<open>DumpExtractor\<close>

text \<open>
  \<^verbatim>\<open>
  go func() {
      for {
          inspect, err := b.cli.ContainerExecInspect(b.ctx, execID)
          if err != nil { c <- true }
          if !inspect.Running { c <- true; return }
          time.Sleep(250 * time.Millisecond)
      }
  }()
  select {
  case <-time.After(30 * time.Second): b.log.Println("Timed out waiting for exec", execID); return
  case <-c: return
  }
  \<close>
  \<open>firstSend polls k t\<close> follows the goroutine from its \<open>k\<close>-th call, begun \<open>t\<close>
  milliseconds after the wait began, to its first send on \<open>c\<close>, and gives the time of
  that send. Only the first send matters to the \<^verbatim>\<open>select\<close>, which receives once; and a
  call begun after the timer has fired cannot matter to it at all, so there the goroutine
  is followed no further (it may go on polling for ever).
\<close>

definition timeout_ms :: nat where
  "timeout_ms = 30000"

definition interval_ms :: nat where
  "interval_ms = 250"

function firstSend :: "(nat \<Rightarrow> poll) \<Rightarrow> nat \<Rightarrow> nat \<Rightarrow> nat option" where
  "firstSend polls k t =
     (if timeout_ms < t then None
      else if pollErr (polls k) \<noteq> None then Some (t + took (polls k))
      else if \<not> Running (polls k) then Some (t + took (polls k))
      else firstSend polls (Suc k) (t + took (polls k) + interval_ms))"
  by pat_completeness auto
termination
  by (relation "measure (\<lambda>(polls, k, t). Suc timeout_ms - t)") (auto simp: interval_ms_def)

declare firstSend.simps [simp del]

text \<open>The case the \<^verbatim>\<open>select\<close> takes, and when (milliseconds after the wait began).\<close>

datatype select_case = TimerFired | Received nat

definition selectCase :: "'w backuper \<Rightarrow> string \<Rightarrow> 'w \<Rightarrow> select_case" where
  "selectCase b execID w =
     (case firstSend (ContainerExecInspect b execID w) 0 0 of
        None \<Rightarrow> TimerFired
      | Some s \<Rightarrow>
          (if s < timeout_ms then Received s
           else if timeout_ms < s then TimerFired
           else if TimerOnTie b w then TimerFired
           else Received s))"


definition waitForExecToEnd :: "'w backuper \<Rightarrow> string \<Rightarrow> 'w \<Rightarrow> event list \<times> 'w" where
  "waitForExecToEnd b execID w =
     (case selectCase b execID w of
        TimerFired \<Rightarrow> ([TimedOut execID], Elapse b timeout_ms w)
      | Received s \<Rightarrow> ([], Elapse b s w))"

text \<open>
  \<^verbatim>\<open>
  execResp, err := b.cli.ContainerExecCreate(b.ctx, container.ID, types.ExecConfig{
      Cmd: []string{"bash", "-c", fmt.Sprintf("pg_dump -U %s %s > /tmp/dump.sql", user, dbName)},
      Detach: false})
  if err != nil { return nil, err }
  err = b.cli.ContainerExecStart(b.ctx, execResp.ID, types.ExecStartCheck{})
  if err != nil { return nil, err }
  b.waitForExecToEnd(execResp.ID)
  reader, _, err := b.cli.CopyFromContainer(b.ctx, container.ID, "/tmp/dump.sql")
  if err != nil { return nil, err }
  return reader, nil
  \<close>
\<close>

definition DumpData ::
  "'w backuper \<Rightarrow> container \<Rightarrow> string \<Rightarrow> string \<Rightarrow> 'w \<Rightarrow> (err + tar_stream) \<times> event list \<times> 'w" where
  "DumpData b c dbName user w =
     (case ContainerExecCreate b (ID c)
             [''bash'', ''-c'', ''pg_dump -U '' @ user @ '' '' @ dbName @ '' > /tmp/dump.sql''] w of
        (Inl e, w1) \<Rightarrow> (Inl e, [], w1)
      | (Inr execID, w1) \<Rightarrow>
          (case ContainerExecStart b execID w1 of
             (Some e, w2) \<Rightarrow> (Inl e, [], w2)
           | (None, w2) \<Rightarrow>
               (case waitForExecToEnd b execID w2 of
                  (evs, w3) \<Rightarrow>
                    (case CopyFromContainer b (ID c) ''/tmp/dump.sql'' w3 of
                       (Inl e, w4) \<Rightarrow> (Inl e, evs, w4)
                     | (Inr reader, w4) \<Rightarrow> (Inr reader, evs, w4)))))"

section \<open>Uploader\<close>

text \<open>
  \<^verbatim>\<open>
  mem, err := UntarReaderToMem(reader)
  now := time.Now().Format(time.RFC3339)
  info, err := b.minio.PutObject(b.ctx, b.options.minio.bucket,
      fmt.Sprintf("%s/%s.sql", appName, now), bytes.NewReader(mem["dump.sql"]), -1, ...)
  if err != nil { b.log.Println("Failed to upload backup file for", appName, ":", err) }
  b.log.Println("Uploaded backup file", info.Location)
  \<close>
  The first \<^verbatim>\<open>err\<close> is overwritten by the second without having been read. After a
  failed decode \<^verbatim>\<open>mem\<close> is the nil map, and indexing a nil map, like indexing a map
  at a key it does not hold, gives the nil slice: \<open>payload\<close> is that read. The call of
  \<^verbatim>\<open>PutObject\<close> is issued with its arguments in every case; on the nil client it
  panics instead of answering.
\<close>

definition payload :: "err + (string \<rightharpoonup> bytes) \<Rightarrow> bytes" where
  "payload mem =
     (case mem of
        Inl e \<Rightarrow> []
      | Inr m \<Rightarrow> (case m ''dump.sql'' of None \<Rightarrow> [] | Some contents \<Rightarrow> contents))"

definition UploadDump ::
  "'w backuper \<Rightarrow> string \<Rightarrow> tar_stream \<Rightarrow> 'w \<Rightarrow> event list \<times> 'w \<times> completion" where
  "UploadDump b appName reader w =
     (let mem = UntarReaderToMem reader in
      case Now_RFC3339 b w of
        (now, w1) \<Rightarrow>
          (let key = appName @ ''/'' @ now @ ''.sql'' in
           case minio b of
             None \<Rightarrow> ([Put (bucket b) key (payload mem)], w1, Panicked NilDereference)
           | Some PutObject \<Rightarrow>
               (case PutObject (bucket b) key (payload mem) w1 of
                  ((info, e), w2) \<Rightarrow>
                    (Put (bucket b) key (payload mem)
                       # (case e of Some e' \<Rightarrow> [UploadFailed appName e'] | None \<Rightarrow> [])
                       @ [Uploaded (Location info)],
                     w2, Returned))))"

section \<open>Orchestrator\<close>

text \<open>
  \<^verbatim>\<open>
  b.log.Println("Starting backup for container", container.ID[:12])
  appName := getAppName(container)
  dbName := b.getDatabaseName(container)
  user := b.getDatabaseUser(container)
  response, err := b.DumpData(container, dbName, user)
  if err != nil {
      log.Println("Failed to dump data for", container.ID[:12], ":", err)
      return
  }
  b.UploadDump(appName, response)
  b.log.Println("Finished backup for container", container.ID[:12])
  \<close>
  A panic in a call ends this one too, with the events and the world as they are then.
\<close>

definition BackupContainer ::
  "'w backuper \<Rightarrow> container \<Rightarrow> 'w \<Rightarrow> event list \<times> 'w \<times> completion" where
  "BackupContainer b c w =
     (case slice12 (ID c) of
        Inl p \<Rightarrow> ([], w, Panicked p)
      | Inr short \<Rightarrow>
          (case getAppName c of
             Inl p \<Rightarrow> ([StartBackup short], w, Panicked p)
           | Inr appName \<Rightarrow>
               (case getDatabaseName b c w of
                  (Inl p, w1) \<Rightarrow> ([StartBackup short], w1, Panicked p)
                | (Inr dbName, w1) \<Rightarrow>
                    (case getDatabaseUser b c w1 of
                       (Inl p, w2) \<Rightarrow> ([StartBackup short], w2, Panicked p)
                     | (Inr user, w2) \<Rightarrow>
                         (case DumpData b c dbName user w2 of
                            (Inl e, evs, w3) \<Rightarrow>
                              (StartBackup short # evs @ [DumpFailed short e], w3, Returned)
                          | (Inr response, evs, w3) \<Rightarrow>
                              (case UploadDump b appName response w3 of
                                 (evs', w4, Panicked p) \<Rightarrow>
                                   (StartBackup short # evs @ evs', w4, Panicked p)
                               | (evs', w4, Returned) \<Rightarrow>
                                   (StartBackup short # evs @ evs' @ [FinishedBackup short],
                                    w4, Returned)))))))"

text \<open>
  \<^verbatim>\<open>for _, container := range result { b.BackupContainer(container) }\<close>:
  a panic in one call ends the loop.
\<close>

fun rangeResult ::
  "'w backuper \<Rightarrow> container list \<Rightarrow> 'w \<Rightarrow> event list \<times> 'w \<times> completion" where
  "rangeResult b [] w = ([], w, Returned)"
| "rangeResult b (c # cs) w =
     (case BackupContainer b c w of
        (evs, w1, Panicked p) \<Rightarrow> (evs, w1, Panicked p)
      | (evs, w1, Returned) \<Rightarrow>
          (case rangeResult b cs w1 of
             (evs', w2, r) \<Rightarrow> (evs @ evs', w2, r)))"

text \<open>
  \<^verbatim>\<open>
  b.log.Println("Start containers scan")
  result, err := b.cli.ContainerList(b.ctx, types.ContainerListOptions{Filters: ...})
  if err != nil { fmt.Println("Failed to list containers:", err) }
  for _, container := range result { b.BackupContainer(container) }
  b.log.Println("End containers scan")
  \<close>
\<close>

definition Scan :: "'w backuper \<Rightarrow> 'w \<Rightarrow> event list \<times> 'w \<times> completion" where
  "Scan b w =
     (case ContainerList b w of
        ((result, e), w1) \<Rightarrow>
          (let listed = (case e of Some e' \<Rightarrow> [ListFailed e'] | None \<Rightarrow> []) in
           case rangeResult b result w1 of
             (evs, w2, Panicked p) \<Rightarrow> (StartScan # listed @ evs, w2, Panicked p)
           | (evs, w2, Returned) \<Rightarrow> (StartScan # listed @ evs @ [EndScan], w2, Returned)))"

section \<open>Vocabulary of the properties\<close>

text \<open>
  An entry of \<^verbatim>\<open>Config.Env\<close> is well formed when it holds a \<^verbatim>\<open>=\<close>; its key is the
  text before the first one.
\<close>

definition hasEquals :: "string \<Rightarrow> bool" where
  "hasEquals entry = (CHR ''='' \<in> set entry)"

definition envKey :: "string \<Rightarrow> string" where
  "envKey entry = takeWhile (\<lambda>c. c \<noteq> CHR ''='') entry"

text \<open>
  Entries that leave the resolution of \<open>key\<close> open: each is well formed and declares
  another variable.
\<close>

definition undecided :: "string \<Rightarrow> string list \<Rightarrow> bool" where
  "undecided key entries = list_all (\<lambda>entry. hasEquals entry \<and> envKey entry \<noteq> key) entries"

text \<open>
  The regular-file entries of a stream, name and contents, in the order of the stream;
  and the path under which the decoder stores an entry of a given name.
\<close>

fun regularFiles :: "tar_stream \<Rightarrow> (string \<times> bytes) list" where
  "regularFiles [] = []"
| "regularFiles (Entry h (Inr contents) # rest) =
     (if Typeflag h = TypeReg then (Name h, contents) # regularFiles rest
      else regularFiles rest)"
| "regularFiles (r # rest) = regularFiles rest"

definition storedPath :: "string \<times> bytes \<Rightarrow> string" where
  "storedPath file = TrimPrefix (fst file) ''/''"

text \<open>
  A stream is well formed when \<^verbatim>\<open>Next\<close> never returns an error other than
  \<^verbatim>\<open>io.EOF\<close> and every regular-file entry can be read to its end.
\<close>

fun wellFormed :: "tar_stream \<Rightarrow> bool" where
  "wellFormed [] = True"
| "wellFormed (NextErr e # rest) = False"
| "wellFormed (NextNil # rest) = wellFormed rest"
| "wellFormed (Entry h (Inl e) # rest) = (if Typeflag h = TypeReg then False else wellFormed rest)"
| "wellFormed (Entry h (Inr contents) # rest) = wellFormed rest"

text \<open>
  The stream the tar reader yields for an archive holding the given files, each written as a
  regular-file entry.
\<close>

definition tarOf :: "(string \<times> bytes) list \<Rightarrow> tar_stream" where
  "tarOf files = map (\<lambda>(name, contents). Entry \<lparr>Typeflag = TypeReg, Name = name\<rparr> (Inr contents)) files"

text \<open>
  Of a sequence of events: the containers whose backup was begun, and the puts issued
  (bucket, key, payload).
\<close>

fun attempted :: "event list \<Rightarrow> string list" where
  "attempted [] = []"
| "attempted (StartBackup short # evs) = short # attempted evs"
| "attempted (ev # evs) = attempted evs"

fun puts :: "event list \<Rightarrow> (string \<times> string \<times> bytes) list" where
  "puts [] = []"
| "puts (Put bkt key body # evs) = (bkt, key, body) # puts evs"
| "puts (ev # evs) = puts evs"

text \<open>
  The world in which the \<open>i\<close>-th container of a scan is reached: the one the backups of
  the containers before it have left.
\<close>

fun worldAt :: "'w backuper \<Rightarrow> container list \<Rightarrow> 'w \<Rightarrow> nat \<Rightarrow> 'w" where
  "worldAt b [] w i = w"
| "worldAt b (c # cs) w 0 = w"
| "worldAt b (c # cs) w (Suc i) = worldAt b cs (fst (snd (BackupContainer b c w))) i"

text \<open>
  An answer of \<^verbatim>\<open>ContainerExecInspect\<close> with its error, if it has one, replaced by
  the plain answer \<^verbatim>\<open>Running: false\<close>; and a backuper whose polls are all answered so.
\<close>

definition asFinished :: "poll \<Rightarrow> poll" where
  "asFinished p = (if pollErr p = None then p else p\<lparr>Running := False, pollErr := None\<rparr>)"

definition errorsAsFinished :: "'w backuper \<Rightarrow> 'w backuper" where
  "errorsAsFinished b =
     b\<lparr>ContainerExecInspect := (\<lambda>execID w k. asFinished (ContainerExecInspect b execID w k))\<rparr>"

text \<open>
  The moment the \<open>k\<close>-th poll begins when every poll before it found the command
  running: each of those took its time and was followed by a sleep.
\<close>

fun pollStart :: "(nat \<Rightarrow> poll) \<Rightarrow> nat \<Rightarrow> nat" where
  "pollStart polls 0 = 0"
| "pollStart polls (Suc k) = pollStart polls k + took (polls k) + interval_ms"

section \<open>A world to run the program in\<close>

text \<open>
  Three containers are listed. Creating the exec fails in the second; in the others the
  dump ends at the first poll and the copy yields an archive of \<^verbatim>\<open>dump.sql\<close>. The
  world is the milliseconds spent waiting so far.
\<close>

definition web :: container where
  "web = \<lparr>ID = ''abcdef0123456789'', Names = [], Labels = Map.empty\<rparr>"

definition broken :: container where
  "broken = \<lparr>ID = ''bbbbbbbbbbbb2222'', Names = [''/broken''], Labels = Map.empty\<rparr>"

definition shop :: container where
  "shop = \<lparr>ID = ''cccccccccccc3333'', Names = [''/pg''],
           Labels = [''postgres-backup/app-name'' \<mapsto> ''shop'']\<rparr>"

definition demo :: "nat backuper" where
  "demo =
     \<lparr>ContainerList = (\<lambda>w. (([web, broken, shop], None), w)),
      ContainerInspect = (\<lambda>cid w. (Inr (Some [''PATH=/usr/bin'', ''POSTGRES_DB=orders'']), w)),
      ContainerExecCreate =
        (\<lambda>cid cmd w. (if cid = ID broken then Inl (Err ''no such container'') else Inr ''e1'', w)),
      ContainerExecStart = (\<lambda>execID w. (None, w)),
      ContainerExecInspect = (\<lambda>execID w k. \<lparr>Running = False, pollErr = None, took = 5\<rparr>),
      TimerOnTie = (\<lambda>w. True),
      Elapse = (\<lambda>ms w. w + ms),
      CopyFromContainer =
        (\<lambda>cid path w. (Inr (tarOf [(''dump.sql'', ''SELECT 1;'')]), w)),
      Now_RFC3339 = (\<lambda>w. (''2023-01-01T00:00:00Z'', w)),
      minio = Some (\<lambda>bkt key body w. ((\<lparr>Location = key\<rparr>, None), w)),
      bucket = ''backups''\<rparr>"

text \<open>
  An archive as a copy out of a container can look: a directory, a regular file under a
  path with a leading separator, and a symbolic link (whose contents are never read).
\<close>

definition sample :: tar_stream where
  "sample =
     [Entry \<lparr>Typeflag = CHR ''5'', Name = ''tmp/''\<rparr> (Inr []),
      NextNil,
      Entry \<lparr>Typeflag = TypeReg, Name = ''/tmp/dump.sql''\<rparr> (Inr ''SELECT 1;''),
      Entry \<lparr>Typeflag = CHR ''2'', Name = ''tmp/link''\<rparr> (Inl (Err ''not read''))]"

text \<open>A container that carries the override labels for the database name and user.\<close>

definition tagged :: container where
  "tagged = \<lparr>ID = ''dddddddddddd4444'', Names = [''/db''],
             Labels = [''postgres-backup/db-name'' \<mapsto> ''orders'',
                       ''postgres-backup/db-user'' \<mapsto> ''admin'']\<rparr>"

text \<open>\<open>demo\<close> with another answer to \<^verbatim>\<open>ContainerInspect\<close>.\<close>

definition inspecting :: "(err + string list option) \<Rightarrow> nat backuper" where
  "inspecting answer = demo\<lparr>ContainerInspect := (\<lambda>cid w. (answer, w))\<rparr>"

text \<open>
  \<open>demo\<close> with other answers to the polls; a poll that finds the command running, and
  one that fails. Each takes 10 milliseconds.
\<close>

definition polling :: "(nat \<Rightarrow> poll) \<Rightarrow> nat backuper" where
  "polling polls = demo\<lparr>ContainerExecInspect := (\<lambda>execID w. polls)\<rparr>"

definition stillRunning :: poll where
  "stillRunning = \<lparr>Running = True, pollErr = None, took = 10\<rparr>"

definition inspectFailed :: poll where
  "inspectFailed = \<lparr>Running = False, pollErr = Some (Err ''connection reset''), took = 10\<rparr>"

text \<open>
  \<open>demo\<close> with another answer to \<^verbatim>\<open>ContainerList\<close>; with a copy that yields a
  stream the tar reader cannot read; with an object store that refuses every put; and with
  no object-store client at all. A container whose identifier is shorter than 12 characters.
\<close>

definition listing :: "container list \<times> err option \<Rightarrow> nat backuper \<Rightarrow> nat backuper" where
  "listing answer b = b\<lparr>ContainerList := (\<lambda>w. (answer, w))\<rparr>"

definition truncated :: "nat backuper" where
  "truncated =
     demo\<lparr>CopyFromContainer := (\<lambda>cid path w. (Inr [NextErr (Err ''unexpected EOF'')], w))\<rparr>"

definition refusing :: "nat backuper" where
  "refusing =
     demo\<lparr>minio :=
            Some (\<lambda>bkt key body w. ((\<lparr>Location = []\<rparr>, Some (Err ''access denied'')), w))\<rparr>"

definition clientless :: "nat backuper" where
  "clientless = demo\<lparr>minio := None\<rparr>"

definition stub :: container where
  "stub = \<lparr>ID = ''abc'', Names = [''/stub''], Labels = Map.empty\<rparr>"

section \<open>Application name\<close>

lemma slice12_Inr: "12 \<le> length s \<Longrightarrow> slice12 s = Inr (take 12 s)"
  by (simp add: slice12_def)

lemma slice12_Inl: "length s < 12 \<Longrightarrow> slice12 s = Inl SliceBoundsOutOfRange"
  by (simp add: slice12_def)

lemma getAppName_returns: "12 \<le> length (ID c) \<Longrightarrow> \<exists>name. getAppName c = Inr name"
  by (simp add: getAppName_def slice12_Inr split: option.splits)

text \<open>
  C4, as the claim states it, fails: resolution is not total. A container with the identifier
  \<^verbatim>\<open>abc\<close>, no name and no override label makes \<^verbatim>\<open>getAppName\<close> panic on
  \<^verbatim>\<open>container.ID[:12]\<close>, in either version of the program.
\<close>

theorem C4_getAppName_short_identifier:
  "getAppName \<lparr>ID = ''abc'', Names = [], Labels = Map.empty\<rparr> = Inl SliceBoundsOutOfRange \<and>
   getAppName_main_go \<lparr>ID = ''abc'', Names = [], Labels = Map.empty\<rparr> = Inl SliceBoundsOutOfRange"
  by (simp add: getAppName_def getAppName_main_go_def slice12_def)

text \<open>
  C4, amended. For every container, application-name resolution returns the value of the
  override label (\<^verbatim>\<open>postgres-backup/app-name\<close>; in \<^verbatim>\<open>src/main.go\<close> the label with
  the empty key) when the label is present; otherwise the first assigned name when the list
  of names is not empty; otherwise, when the identifier has at least 12 characters, its
  first 12 characters.
\<close>

theorem C4_getAppName_priority:
  "(\<forall>v. Labels c ''postgres-backup/app-name'' = Some v \<longrightarrow> getAppName c = Inr v) \<and>
   (Labels c ''postgres-backup/app-name'' = None \<and> Names c \<noteq> []
      \<longrightarrow> getAppName c = Inr (hd (Names c))) \<and>
   (Labels c ''postgres-backup/app-name'' = None \<and> Names c = [] \<and> 12 \<le> length (ID c)
      \<longrightarrow> getAppName c = Inr (take 12 (ID c))) \<and>
   (\<forall>v. Labels c '''' = Some v \<longrightarrow> getAppName_main_go c = Inr v) \<and>
   (Labels c '''' = None \<and> Names c \<noteq> [] \<longrightarrow> getAppName_main_go c = Inr (hd (Names c))) \<and>
   (Labels c '''' = None \<and> Names c = [] \<and> 12 \<le> length (ID c)
      \<longrightarrow> getAppName_main_go c = Inr (take 12 (ID c)))"
  by (auto simp: getAppName_def getAppName_main_go_def slice12_def hd_conv_nth)

text \<open>
  The three cases at work: the identifier \<^verbatim>\<open>abcdef0123456789\<close> with no name and no
  label gives \<^verbatim>\<open>abcdef012345\<close>; a label wins over a name; a name wins over the
  identifier.
\<close>

theorem C4_getAppName_examples:
  "getAppName \<lparr>ID = ''abcdef0123456789'', Names = [], Labels = Map.empty\<rparr> = Inr ''abcdef012345'' \<and>
   getAppName_main_go \<lparr>ID = ''abcdef0123456789'', Names = [], Labels = Map.empty\<rparr>
     = Inr ''abcdef012345'' \<and>
   getAppName shop = Inr ''shop'' \<and>
   getAppName_main_go shop = Inr ''/pg'' \<and>
   getAppName broken = Inr ''/broken''"
  using C4_getAppName_priority [of "\<lparr>ID = ''abcdef0123456789'', Names = [], Labels = Map.empty\<rparr>"]
    C4_getAppName_priority [of shop] C4_getAppName_priority [of broken]
  by (simp add: shop_def broken_def)

section \<open>Database name and user\<close>

lemma SplitN2_hasEquals:
  "hasEquals entry \<Longrightarrow>
   SplitN2 entry (CHR ''='') = [envKey entry, tl (dropWhile (\<lambda>c. c \<noteq> CHR ''='') entry)]"
  by (simp add: SplitN2_def hasEquals_def envKey_def)

lemma SplitN2_malformed: "\<not> hasEquals entry \<Longrightarrow> SplitN2 entry (CHR ''='') = [entry]"
  by (simp add: SplitN2_def hasEquals_def)

lemma SplitN2_declaration:
  "CHR ''='' \<notin> set key \<Longrightarrow> SplitN2 (key @ CHR ''='' # v) (CHR ''='') = [key, v]"
proof -
  assume k: "CHR ''='' \<notin> set key"
  have "takeWhile (\<lambda>c. c \<noteq> CHR ''='') (key @ CHR ''='' # v) = key"
    using k by (subst takeWhile_append2) auto
  moreover have "dropWhile (\<lambda>c. c \<noteq> CHR ''='') (key @ CHR ''='' # v) = CHR ''='' # v"
    using k by (subst dropWhile_append2) auto
  ultimately show ?thesis by (simp add: SplitN2_def)
qed

lemma rangeEnv_undecided:
  "undecided key pre \<Longrightarrow> rangeEnv key (pre @ rest) = rangeEnv key rest"
  by (induction pre) (simp_all add: undecided_def SplitN2_hasEquals)

lemma rangeEnv_declared:
  "CHR ''='' \<notin> set key \<Longrightarrow> undecided key pre \<Longrightarrow>
   rangeEnv key (pre @ (key @ ''='' @ v) # post) = v"
  by (simp add: rangeEnv_undecided SplitN2_declaration)

lemma rangeEnv_malformed:
  "\<not> hasEquals bad \<Longrightarrow> undecided key pre \<Longrightarrow> rangeEnv key (pre @ bad # post) = ''postgres''"
  by (simp add: rangeEnv_undecided SplitN2_malformed)

lemma rangeEnv_absent: "undecided key entries \<Longrightarrow> rangeEnv key entries = ''postgres''"
  using rangeEnv_undecided [of key entries "[]"] by simp

lemma getDatabaseName_label:
  "Labels c ''postgres-backup/db-name'' = Some v \<Longrightarrow> getDatabaseName b c w = (Inr v, w)"
  by (simp add: getDatabaseName_def)

lemma getDatabaseName_inspect_failed:
  "Labels c ''postgres-backup/db-name'' = None \<Longrightarrow> fst (ContainerInspect b (ID c) w) = Inl e \<Longrightarrow>
   fst (getDatabaseName b c w) = Inr ''postgres''"
  by (cases "ContainerInspect b (ID c) w") (simp add: getDatabaseName_def)

lemma getDatabaseName_no_config:
  "Labels c ''postgres-backup/db-name'' = None \<Longrightarrow> fst (ContainerInspect b (ID c) w) = Inr None \<Longrightarrow>
   fst (getDatabaseName b c w) = Inl NilDereference"
  by (cases "ContainerInspect b (ID c) w") (simp add: getDatabaseName_def)

lemma getDatabaseName_env:
  "Labels c ''postgres-backup/db-name'' = None \<Longrightarrow>
   fst (ContainerInspect b (ID c) w) = Inr (Some entries) \<Longrightarrow>
   fst (getDatabaseName b c w) = Inr (rangeEnv ''POSTGRES_DB'' entries)"
  by (cases "ContainerInspect b (ID c) w") (simp add: getDatabaseName_def)

lemma getDatabaseUser_label:
  "Labels c ''postgres-backup/db-user'' = Some v \<Longrightarrow> getDatabaseUser b c w = (Inr v, w)"
  by (simp add: getDatabaseUser_def)

lemma getDatabaseUser_inspect_failed:
  "Labels c ''postgres-backup/db-user'' = None \<Longrightarrow> fst (ContainerInspect b (ID c) w) = Inl e \<Longrightarrow>
   fst (getDatabaseUser b c w) = Inr ''postgres''"
  by (cases "ContainerInspect b (ID c) w") (simp add: getDatabaseUser_def)

lemma getDatabaseUser_no_config:
  "Labels c ''postgres-backup/db-user'' = None \<Longrightarrow> fst (ContainerInspect b (ID c) w) = Inr None \<Longrightarrow>
   fst (getDatabaseUser b c w) = Inl NilDereference"
  by (cases "ContainerInspect b (ID c) w") (simp add: getDatabaseUser_def)

lemma getDatabaseUser_env:
  "Labels c ''postgres-backup/db-user'' = None \<Longrightarrow>
   fst (ContainerInspect b (ID c) w) = Inr (Some entries) \<Longrightarrow>
   fst (getDatabaseUser b c w) = Inr (rangeEnv ''POSTGRES_USER'' entries)"
  by (cases "ContainerInspect b (ID c) w") (simp add: getDatabaseUser_def)

text \<open>
  With a configuration in every successful inspect answer, both resolutions return; and
  neither ever panics on a slice bound.
\<close>

lemma getDatabaseName_returns:
  assumes "\<forall>cid w'. fst (ContainerInspect b cid w') \<noteq> Inr None"
  shows "\<exists>name. fst (getDatabaseName b c w) = Inr name"
proof (cases "ContainerInspect b (ID c) w")
  case (Pair answer w1)
  with assms [rule_format, of "ID c" w] have "answer \<noteq> Inr None" by simp
  with Pair show ?thesis
    by (cases answer) (auto simp: getDatabaseName_def split: option.splits)
qed

lemma getDatabaseUser_returns:
  assumes "\<forall>cid w'. fst (ContainerInspect b cid w') \<noteq> Inr None"
  shows "\<exists>name. fst (getDatabaseUser b c w) = Inr name"
proof (cases "ContainerInspect b (ID c) w")
  case (Pair answer w1)
  with assms [rule_format, of "ID c" w] have "answer \<noteq> Inr None" by simp
  with Pair show ?thesis
    by (cases answer) (auto simp: getDatabaseUser_def split: option.splits)
qed

lemma getDatabaseName_panic: "fst (getDatabaseName b c w) = Inl p \<Longrightarrow> p = NilDereference"
  by (cases "ContainerInspect b (ID c) w")
     (auto simp: getDatabaseName_def split: option.splits sum.splits)

lemma getDatabaseUser_panic: "fst (getDatabaseUser b c w) = Inl p \<Longrightarrow> p = NilDereference"
  by (cases "ContainerInspect b (ID c) w")
     (auto simp: getDatabaseUser_def split: option.splits sum.splits)

text \<open>
  C2, as the claim states it, fails. What the environment decides depends on the order of its
  entries: with no override label, an environment that declares \<^verbatim>\<open>POSTGRES_DB=shop\<close>
  after a malformed entry resolves to the default although the variable is declared, and
  the same two entries in the other order resolve to \<^verbatim>\<open>shop\<close> although a malformed
  entry is present. And with no override label, a successful inspect answer that carries no
  configuration makes both resolutions panic where the claim has them return the default.
\<close>

theorem C2_order_of_entries_decides:
  "fst (getDatabaseName (inspecting (Inr (Some [''BAD'', ''POSTGRES_DB=shop'']))) web 0)
     = Inr ''postgres'' \<and>
   fst (getDatabaseName (inspecting (Inr (Some [''POSTGRES_DB=shop'', ''BAD'']))) web 0)
     = Inr ''shop'' \<and>
   fst (getDatabaseName (inspecting (Inr None)) web 0) = Inl NilDereference \<and>
   fst (getDatabaseUser (inspecting (Inr None)) web 0) = Inl NilDereference"
  by (simp add: getDatabaseName_def getDatabaseUser_def inspecting_def demo_def web_def SplitN2_def)

text \<open>
  C2, amended. Database-name resolution and database-user resolution each return the value
  of the override label (\<^verbatim>\<open>postgres-backup/db-name\<close>, \<^verbatim>\<open>postgres-backup/db-user\<close>)
  when the label is present. Otherwise, when inspecting the container fails, they return the
  default \<^verbatim>\<open>postgres\<close>; and when the inspect succeeds with an answer that carries no
  configuration, they panic. Otherwise the declared environment is read in order and its
  first entry that either has no \<^verbatim>\<open>=\<close> or declares the variable (\<^verbatim>\<open>POSTGRES_DB\<close>,
  \<^verbatim>\<open>POSTGRES_USER\<close>) decides: a declaration returns its value, a malformed entry
  returns the default; and an environment with no such entry returns the default.
\<close>

theorem C2_database_name_and_user:
  "(\<forall>v. Labels c ''postgres-backup/db-name'' = Some v \<longrightarrow> fst (getDatabaseName b c w) = Inr v) \<and>
   (\<forall>v. Labels c ''postgres-backup/db-user'' = Some v \<longrightarrow> fst (getDatabaseUser b c w) = Inr v) \<and>
   (\<forall>e. fst (ContainerInspect b (ID c) w) = Inl e \<longrightarrow>
      (Labels c ''postgres-backup/db-name'' = None \<longrightarrow> fst (getDatabaseName b c w) = Inr ''postgres'') \<and>
      (Labels c ''postgres-backup/db-user'' = None \<longrightarrow> fst (getDatabaseUser b c w) = Inr ''postgres'')) \<and>
   (fst (ContainerInspect b (ID c) w) = Inr None \<longrightarrow>
      (Labels c ''postgres-backup/db-name'' = None \<longrightarrow> fst (getDatabaseName b c w) = Inl NilDereference) \<and>
      (Labels c ''postgres-backup/db-user'' = None \<longrightarrow> fst (getDatabaseUser b c w) = Inl NilDereference)) \<and>
   (\<forall>pre v post.
      fst (ContainerInspect b (ID c) w) = Inr (Some (pre @ (''POSTGRES_DB='' @ v) # post)) \<and>
      undecided ''POSTGRES_DB'' pre \<and> Labels c ''postgres-backup/db-name'' = None
      \<longrightarrow> fst (getDatabaseName b c w) = Inr v) \<and>
   (\<forall>pre v post.
      fst (ContainerInspect b (ID c) w) = Inr (Some (pre @ (''POSTGRES_USER='' @ v) # post)) \<and>
      undecided ''POSTGRES_USER'' pre \<and> Labels c ''postgres-backup/db-user'' = None
      \<longrightarrow> fst (getDatabaseUser b c w) = Inr v) \<and>
   (\<forall>pre bad post.
      fst (ContainerInspect b (ID c) w) = Inr (Some (pre @ bad # post)) \<and> \<not> hasEquals bad \<longrightarrow>
      (undecided ''POSTGRES_DB'' pre \<and> Labels c ''postgres-backup/db-name'' = None
         \<longrightarrow> fst (getDatabaseName b c w) = Inr ''postgres'') \<and>
      (undecided ''POSTGRES_USER'' pre \<and> Labels c ''postgres-backup/db-user'' = None
         \<longrightarrow> fst (getDatabaseUser b c w) = Inr ''postgres'')) \<and>
   (\<forall>entries. fst (ContainerInspect b (ID c) w) = Inr (Some entries) \<longrightarrow>
      (undecided ''POSTGRES_DB'' entries \<and> Labels c ''postgres-backup/db-name'' = None
         \<longrightarrow> fst (getDatabaseName b c w) = Inr ''postgres'') \<and>
      (undecided ''POSTGRES_USER'' entries \<and> Labels c ''postgres-backup/db-user'' = None
         \<longrightarrow> fst (getDatabaseUser b c w) = Inr ''postgres''))"
proof (intro conjI allI impI)
  fix v assume "Labels c ''postgres-backup/db-name'' = Some v"
  then show "fst (getDatabaseName b c w) = Inr v" by (simp add: getDatabaseName_label)
next
  fix v assume "Labels c ''postgres-backup/db-user'' = Some v"
  then show "fst (getDatabaseUser b c w) = Inr v" by (simp add: getDatabaseUser_label)
next
  fix e assume "fst (ContainerInspect b (ID c) w) = Inl e" "Labels c ''postgres-backup/db-name'' = None"
  then show "fst (getDatabaseName b c w) = Inr ''postgres''"
    by (simp add: getDatabaseName_inspect_failed)
next
  fix e assume "fst (ContainerInspect b (ID c) w) = Inl e" "Labels c ''postgres-backup/db-user'' = None"
  then show "fst (getDatabaseUser b c w) = Inr ''postgres''"
    by (simp add: getDatabaseUser_inspect_failed)
next
  assume "fst (ContainerInspect b (ID c) w) = Inr None" "Labels c ''postgres-backup/db-name'' = None"
  then show "fst (getDatabaseName b c w) = Inl NilDereference"
    by (simp add: getDatabaseName_no_config)
next
  assume "fst (ContainerInspect b (ID c) w) = Inr None" "Labels c ''postgres-backup/db-user'' = None"
  then show "fst (getDatabaseUser b c w) = Inl NilDereference"
    by (simp add: getDatabaseUser_no_config)
next
  fix pre v post
  assume "fst (ContainerInspect b (ID c) w) = Inr (Some (pre @ (''POSTGRES_DB='' @ v) # post)) \<and>
      undecided ''POSTGRES_DB'' pre \<and> Labels c ''postgres-backup/db-name'' = None"
  then show "fst (getDatabaseName b c w) = Inr v"
    using rangeEnv_declared [of "''POSTGRES_DB''" pre v post]
    by (simp add: getDatabaseName_env)
next
  fix pre v post
  assume "fst (ContainerInspect b (ID c) w) = Inr (Some (pre @ (''POSTGRES_USER='' @ v) # post)) \<and>
      undecided ''POSTGRES_USER'' pre \<and> Labels c ''postgres-backup/db-user'' = None"
  then show "fst (getDatabaseUser b c w) = Inr v"
    using rangeEnv_declared [of "''POSTGRES_USER''" pre v post]
    by (simp add: getDatabaseUser_env)
next
  fix pre bad post
  assume "fst (ContainerInspect b (ID c) w) = Inr (Some (pre @ bad # post)) \<and> \<not> hasEquals bad"
    "undecided ''POSTGRES_DB'' pre \<and> Labels c ''postgres-backup/db-name'' = None"
  then show "fst (getDatabaseName b c w) = Inr ''postgres''"
    by (simp add: getDatabaseName_env rangeEnv_malformed)
next
  fix pre bad post
  assume "fst (ContainerInspect b (ID c) w) = Inr (Some (pre @ bad # post)) \<and> \<not> hasEquals bad"
    "undecided ''POSTGRES_USER'' pre \<and> Labels c ''postgres-backup/db-user'' = None"
  then show "fst (getDatabaseUser b c w) = Inr ''postgres''"
    by (simp add: getDatabaseUser_env rangeEnv_malformed)
next
  fix entries
  assume "fst (ContainerInspect b (ID c) w) = Inr (Some entries)"
    "undecided ''POSTGRES_DB'' entries \<and> Labels c ''postgres-backup/db-name'' = None"
  then show "fst (getDatabaseName b c w) = Inr ''postgres''"
    by (simp add: getDatabaseName_env rangeEnv_absent)
next
  fix entries
  assume "fst (ContainerInspect b (ID c) w) = Inr (Some entries)"
    "undecided ''POSTGRES_USER'' entries \<and> Labels c ''postgres-backup/db-user'' = None"
  then show "fst (getDatabaseUser b c w) = Inr ''postgres''"
    by (simp add: getDatabaseUser_env rangeEnv_absent)
qed

text \<open>
  Each case at work: the labels; a failed inspect; an answer without configuration;
  declarations found behind other variables; a malformed entry in front of a declaration;
  no declaration at all.
\<close>

theorem C2_database_name_and_user_witness:
  "fst (getDatabaseName demo tagged 0) = Inr ''orders'' \<and>
   fst (getDatabaseUser demo tagged 0) = Inr ''admin'' \<and>
   fst (getDatabaseName (inspecting (Inl (Err ''no such container''))) web 0) = Inr ''postgres'' \<and>
   fst (getDatabaseUser (inspecting (Inl (Err ''no such container''))) web 0) = Inr ''postgres'' \<and>
   fst (getDatabaseName (inspecting (Inr None)) web 0) = Inl NilDereference \<and>
   fst (getDatabaseUser (inspecting (Inr None)) web 0) = Inl NilDereference \<and>
   fst (getDatabaseName
          (inspecting (Inr (Some [''PATH=/bin'', ''POSTGRES_USER=admin'', ''POSTGRES_DB=orders''])))
          web 0) = Inr ''orders'' \<and>
   fst (getDatabaseUser
          (inspecting (Inr (Some [''PATH=/bin'', ''POSTGRES_USER=admin'', ''POSTGRES_DB=orders''])))
          web 0) = Inr ''admin'' \<and>
   fst (getDatabaseName
          (inspecting (Inr (Some [''PATH=/bin'', ''POSTGRES_DB'', ''POSTGRES_DB=orders''])))
          web 0) = Inr ''postgres'' \<and>
   fst (getDatabaseUser
          (inspecting (Inr (Some [''PATH=/bin'', ''POSTGRES_DB'', ''POSTGRES_USER=admin''])))
          web 0) = Inr ''postgres'' \<and>
   fst (getDatabaseName (inspecting (Inr (Some [''PATH=/bin'', ''LANG=C'']))) web 0) = Inr ''postgres'' \<and>
   fst (getDatabaseUser (inspecting (Inr (Some [''PATH=/bin'', ''LANG=C'']))) web 0) = Inr ''postgres''"
proof -
  note defs = inspecting_def demo_def web_def tagged_def undecided_def hasEquals_def envKey_def
  note C2 = C2_database_name_and_user
  let ?failed = "inspecting (Inl (Err ''no such container''))"
  let ?bare = "inspecting (Inr None)"
  let ?declared = "inspecting (Inr (Some [''PATH=/bin'', ''POSTGRES_USER=admin'', ''POSTGRES_DB=orders'']))"
  let ?badName = "inspecting (Inr (Some [''PATH=/bin'', ''POSTGRES_DB'', ''POSTGRES_DB=orders'']))"
  let ?badUser = "inspecting (Inr (Some [''PATH=/bin'', ''POSTGRES_DB'', ''POSTGRES_USER=admin'']))"
  let ?absent = "inspecting (Inr (Some [''PATH=/bin'', ''LANG=C'']))"
  have 1: "fst (getDatabaseName demo tagged 0) = Inr ''orders''"
    using C2 [of tagged demo 0, THEN conjunct1]
    by (simp add: defs)
  have 2: "fst (getDatabaseUser demo tagged 0) = Inr ''admin''"
    using C2 [of tagged demo 0, THEN conjunct2, THEN conjunct1]
    by (simp add: defs)
  have 3: "fst (getDatabaseName ?failed web 0) = Inr ''postgres'' \<and>
           fst (getDatabaseUser ?failed web 0) = Inr ''postgres''"
    using C2 [of web ?failed 0, THEN conjunct2, THEN conjunct2, THEN conjunct1]
    by (simp add: defs)
  have 4: "fst (getDatabaseName ?bare web 0) = Inl NilDereference \<and>
           fst (getDatabaseUser ?bare web 0) = Inl NilDereference"
    using C2 [of web ?bare 0, THEN conjunct2, THEN conjunct2, THEN conjunct2, THEN conjunct1]
    by (simp add: defs)
  have 5: "fst (getDatabaseName ?declared web 0) = Inr ''orders''"
    using C2 [of web ?declared 0,
        THEN conjunct2, THEN conjunct2, THEN conjunct2, THEN conjunct2, THEN conjunct1,
        rule_format, of "[''PATH=/bin'', ''POSTGRES_USER=admin'']" "''orders''" "[]"]
    by (simp add: defs)
  have 6: "fst (getDatabaseUser ?declared web 0) = Inr ''admin''"
    using C2 [of web ?declared 0,
        THEN conjunct2, THEN conjunct2, THEN conjunct2, THEN conjunct2, THEN conjunct2,
        THEN conjunct1,
        rule_format, of "[''PATH=/bin'']" "''admin''" "[''POSTGRES_DB=orders'']"]
    by (simp add: defs)
  have 7: "fst (getDatabaseName ?badName web 0) = Inr ''postgres''"
    using C2 [of web ?badName 0,
        THEN conjunct2, THEN conjunct2, THEN conjunct2, THEN conjunct2, THEN conjunct2,
        THEN conjunct2, THEN conjunct1,
        rule_format, of "[''PATH=/bin'']" "''POSTGRES_DB''" "[''POSTGRES_DB=orders'']", THEN conjunct1]
    by (simp add: defs)
  have 8: "fst (getDatabaseUser ?badUser web 0) = Inr ''postgres''"
    using C2 [of web ?badUser 0,
        THEN conjunct2, THEN conjunct2, THEN conjunct2, THEN conjunct2, THEN conjunct2,
        THEN conjunct2, THEN conjunct1,
        rule_format, of "[''PATH=/bin'']" "''POSTGRES_DB''" "[''POSTGRES_USER=admin'']", THEN conjunct2]
    by (simp add: defs)
  have 9: "fst (getDatabaseName ?absent web 0) = Inr ''postgres'' \<and>
           fst (getDatabaseUser ?absent web 0) = Inr ''postgres''"
    using C2 [of web ?absent 0,
        THEN conjunct2, THEN conjunct2, THEN conjunct2, THEN conjunct2, THEN conjunct2,
        THEN conjunct2, THEN conjunct2,
        rule_format, of "[''PATH=/bin'', ''LANG=C'']"]
    by (simp add: defs)
  from 1 2 3 4 5 6 7 8 9 show ?thesis by simp
qed

section \<open>Upload\<close>

lemma UploadDump_events:
  "fst (UploadDump b appName reader w) =
     Put (bucket b) (appName @ ''/'' @ fst (Now_RFC3339 b w) @ ''.sql'') (payload (UntarReaderToMem reader))
     # (case minio b of
          None \<Rightarrow> []
        | Some PutObject \<Rightarrow>
            (case snd (fst (PutObject (bucket b) (appName @ ''/'' @ fst (Now_RFC3339 b w) @ ''.sql'')
                              (payload (UntarReaderToMem reader)) (snd (Now_RFC3339 b w)))) of
               Some e \<Rightarrow> [UploadFailed appName e] | None \<Rightarrow> [])
            @ [Uploaded (Location (fst (fst (PutObject (bucket b)
                              (appName @ ''/'' @ fst (Now_RFC3339 b w) @ ''.sql'')
                              (payload (UntarReaderToMem reader)) (snd (Now_RFC3339 b w))))))])"
  by (simp add: UploadDump_def Let_def split: prod.splits option.splits)

lemma puts_UploadDump:
  "puts (fst (UploadDump b appName reader w)) =
     [(bucket b, appName @ ''/'' @ fst (Now_RFC3339 b w) @ ''.sql'', payload (UntarReaderToMem reader))]"
  by (simp add: UploadDump_events split: option.splits)

lemma UploadDump_completion:
  "snd (snd (UploadDump b appName reader w)) =
     (case minio b of None \<Rightarrow> Panicked NilDereference | Some PutObject \<Rightarrow> Returned)"
  by (simp add: UploadDump_def Let_def split: prod.splits option.splits)

text \<open>
  C5. Every call of \<^verbatim>\<open>UploadDump\<close> issues one put, and its object key is the
  application name, then \<^verbatim>\<open>/\<close>, then the RFC3339 rendering of the time read from the
  clock, then \<^verbatim>\<open>.sql\<close>. For the application name \<^verbatim>\<open>shop\<close> under a clock that
  reads \<^verbatim>\<open>2023-01-01T00:00:00Z\<close> (the clock of \<open>demo\<close>) the key is
  \<^verbatim>\<open>shop/2023-01-01T00:00:00Z.sql\<close>, whatever is uploaded.
\<close>

theorem C5_object_key:
  "map (\<lambda>(bkt, key, body). key) (puts (fst (UploadDump b appName reader w)))
     = [appName @ ''/'' @ fst (Now_RFC3339 b w) @ ''.sql''] \<and>
   map (\<lambda>(bkt, key, body). key) (puts (fst (UploadDump demo ''shop'' reader w')))
     = [''shop/2023-01-01T00:00:00Z.sql'']"
  by (simp add: puts_UploadDump demo_def)

theorem C5_object_key_witness:
  "map (\<lambda>(bkt, key, body). key)
     (puts (fst (UploadDump demo ''shop'' (tarOf [(''dump.sql'', ''SELECT 1;'')]) 0)))
     = [''shop/2023-01-01T00:00:00Z.sql'']"
  using C5_object_key [of demo "''shop''" "tarOf [(''dump.sql'', ''SELECT 1;'')]" 0]
  by (simp add: demo_def)

lemma payload_empty:
  "UntarReaderToMem reader = Inl e \<or> (\<exists>m. UntarReaderToMem reader = Inr m \<and> m ''dump.sql'' = None)
   \<Longrightarrow> payload (UntarReaderToMem reader) = []"
  by (auto simp: payload_def)

lemma payload_empty_dump: "payload (UntarReaderToMem (tarOf [(''dump.sql'', [])])) = []"
  by (simp add: payload_def UntarReaderToMem_def tarOf_def TrimPrefix_def)

text \<open>
  C9. When decoding the archive fails, or the decoded map has no entry \<^verbatim>\<open>dump.sql\<close>,
  \<^verbatim>\<open>UploadDump\<close> still issues its put, of the empty payload, under the usual key; and
  all it does (the events and the world it leaves) is what it does for a sound archive whose
  \<^verbatim>\<open>dump.sql\<close> is empty, so nothing reports the condition.
\<close>

theorem C9_failed_decode_is_uploaded_empty:
  assumes "UntarReaderToMem reader = Inl e \<or>
           (\<exists>m. UntarReaderToMem reader = Inr m \<and> m ''dump.sql'' = None)"
  shows "puts (fst (UploadDump b appName reader w))
           = [(bucket b, appName @ ''/'' @ fst (Now_RFC3339 b w) @ ''.sql'', [])] \<and>
         UploadDump b appName reader w = UploadDump b appName (tarOf [(''dump.sql'', [])]) w"
  using payload_empty [OF assms] payload_empty_dump
  by (simp add: puts_UploadDump)
     (simp add: UploadDump_def Let_def split: prod.splits option.splits)

text \<open>
  Both cases at work: a stream the tar reader cannot read, and the archive \<open>sample\<close>,
  which is sound but holds its file under another path than \<^verbatim>\<open>dump.sql\<close>.
\<close>

theorem C9_failed_decode_witness:
  "UntarReaderToMem [NextErr (Err ''unexpected EOF'')] = Inl (Err ''unexpected EOF'') \<and>
   fst (UploadDump demo ''shop'' [NextErr (Err ''unexpected EOF'')] 0)
     = [Put ''backups'' ''shop/2023-01-01T00:00:00Z.sql'' [],
        Uploaded ''shop/2023-01-01T00:00:00Z.sql''] \<and>
   UntarReaderToMem sample = Inr [''tmp/dump.sql'' \<mapsto> ''SELECT 1;''] \<and>
   fst (UploadDump demo ''shop'' sample 0)
     = [Put ''backups'' ''shop/2023-01-01T00:00:00Z.sql'' [],
        Uploaded ''shop/2023-01-01T00:00:00Z.sql'']"
proof -
  have empty: "fst (UploadDump demo ''shop'' (tarOf [(''dump.sql'', [])]) 0)
     = [Put ''backups'' ''shop/2023-01-01T00:00:00Z.sql'' [],
        Uploaded ''shop/2023-01-01T00:00:00Z.sql'']"
    by (simp add: UploadDump_def Let_def demo_def payload_def UntarReaderToMem_def tarOf_def
          TrimPrefix_def)
  have h1: "UntarReaderToMem [NextErr (Err ''unexpected EOF'')] = Inl (Err ''unexpected EOF'')"
    by (simp add: UntarReaderToMem_def)
  have h2: "UntarReaderToMem sample = Inr [''tmp/dump.sql'' \<mapsto> ''SELECT 1;'']"
    by (simp add: UntarReaderToMem_def sample_def TypeReg_def TrimPrefix_def)
  from C9_failed_decode_is_uploaded_empty
         [of "[NextErr (Err ''unexpected EOF'')]" "Err ''unexpected EOF''" demo "''shop''" 0] h1
  have 1: "UploadDump demo ''shop'' [NextErr (Err ''unexpected EOF'')] 0
          = UploadDump demo ''shop'' (tarOf [(''dump.sql'', [])]) 0"
    by simp
  from C9_failed_decode_is_uploaded_empty [of sample "Err []" demo "''shop''" 0] h2
  have 2: "UploadDump demo ''shop'' sample 0
          = UploadDump demo ''shop'' (tarOf [(''dump.sql'', [])]) 0"
    by simp
  from 1 2 h1 h2 empty show ?thesis by simp
qed

section \<open>Archive decoding\<close>

text \<open>
  On a well-formed stream the loop ends with the map it was given, overlaid with the
  regular files of the stream, a later file taking the place of an earlier one of the same
  stored path.
\<close>

lemma untarLoop_wellFormed:
  "wellFormed s \<Longrightarrow>
   untarLoop s fileMap =
     Inr (fileMap ++ map_of (rev (map (\<lambda>file. (storedPath file, snd file)) (regularFiles s))))"
proof (induction s arbitrary: fileMap rule: wellFormed.induct)
  case 1
  then show ?case by simp
next
  case (2 e rest)
  then show ?case by simp
next
  case (3 rest)
  then show ?case by simp
next
  case (4 h e rest)
  then show ?case by (simp split: if_splits)
next
  case (5 h contents rest)
  show ?case
  proof (cases "Typeflag h = TypeReg")
    case True
    with 5 show ?thesis
      by (simp add: storedPath_def map_add_upd_left)
  next
    case False
    with 5 show ?thesis by simp
  qed
qed

lemma map_of_rev_last:
  "i < length al \<Longrightarrow> \<forall>j. i < j \<and> j < length al \<longrightarrow> fst (al ! j) \<noteq> fst (al ! i) \<Longrightarrow>
   map_of (rev al) (fst (al ! i)) = Some (snd (al ! i))"
proof (induction al arbitrary: i)
  case Nil
  then show ?case by simp
next
  case (Cons x xs)
  show ?case
  proof (cases i)
    case 0
    have "fst x \<notin> fst ` set xs"
    proof
      assume "fst x \<in> fst ` set xs"
      then obtain j where "j < length xs" "fst (xs ! j) = fst x"
        by (auto simp: in_set_conv_nth)
      with Cons.prems(2) [rule_format, of "Suc j"] 0 show False by simp
    qed
    then have "map_of (rev xs) (fst x) = None"
      by (simp add: map_of_eq_None_iff)
    with 0 show ?thesis by (simp add: map_add_def)
  next
    case (Suc i')
    have "map_of (rev xs) (fst (xs ! i')) = Some (snd (xs ! i'))"
    proof (rule Cons.IH)
      show "i' < length xs" using Cons.prems(1) Suc by simp
      show "\<forall>j. i' < j \<and> j < length xs \<longrightarrow> fst (xs ! j) \<noteq> fst (xs ! i')"
      proof (intro allI impI)
        fix j assume "i' < j \<and> j < length xs"
        with Cons.prems(2) [rule_format, of "Suc j"] Suc
        show "fst (xs ! j) \<noteq> fst (xs ! i')" by simp
      qed
    qed
    with Suc show ?thesis by (simp add: map_add_def)
  qed
qed

lemma UntarReaderToMem_wellFormed:
  assumes "wellFormed s"
  shows "\<exists>m. UntarReaderToMem s = Inr m \<and>
           dom m = storedPath ` set (regularFiles s) \<and>
           (\<forall>i < length (regularFiles s).
              (\<forall>j. i < j \<and> j < length (regularFiles s)
                   \<longrightarrow> storedPath (regularFiles s ! j) \<noteq> storedPath (regularFiles s ! i))
              \<longrightarrow> m (storedPath (regularFiles s ! i)) = Some (snd (regularFiles s ! i)))"
proof -
  let ?al = "map (\<lambda>file. (storedPath file, snd file)) (regularFiles s)"
  let ?m = "map_of (rev ?al)"
  have m: "UntarReaderToMem s = Inr ?m"
    using untarLoop_wellFormed [OF assms, of Map.empty] by (simp add: UntarReaderToMem_def)
  have d: "dom ?m = storedPath ` set (regularFiles s)"
    by (simp add: dom_map_of_conv_image_fst image_image)
  have l: "?m (storedPath (regularFiles s ! i)) = Some (snd (regularFiles s ! i))"
    if "i < length (regularFiles s)"
      and "\<forall>j. i < j \<and> j < length (regularFiles s)
              \<longrightarrow> storedPath (regularFiles s ! j) \<noteq> storedPath (regularFiles s ! i)" for i
    using map_of_rev_last [of i ?al] that by simp
  from m d l show ?thesis by blast
qed

text \<open>
  C3, as the claim states it, fails in its general part: a well-formed stream of two regular
  files of the same name is decoded to a map that holds the contents of the second only, so
  the first entry's name is not mapped to that entry's contents.
\<close>

theorem C3_later_entry_replaces_earlier:
  "wellFormed (tarOf [(''dump.sql'', ''old''), (''dump.sql'', ''new'')]) \<and>
   UntarReaderToMem (tarOf [(''dump.sql'', ''old''), (''dump.sql'', ''new'')])
     = Inr [''dump.sql'' \<mapsto> ''new'']"
  by (simp add: UntarReaderToMem_def tarOf_def TrimPrefix_def)

text \<open>
  C3, amended. Decoding the archive of the one file \<^verbatim>\<open>dump.sql\<close> with contents \<open>b\<close>
  gives exactly the map of \<^verbatim>\<open>dump.sql\<close> to \<open>b\<close>. For every well-formed stream the
  decoder returns a map at the end of the stream; the keys of the map are the names of the
  regular-file entries, each with one leading \<^verbatim>\<open>/\<close> stripped; entries that are not
  regular files add nothing and raise no error; and each regular-file entry's stripped name
  is mapped to that entry's full contents unless a later regular-file entry has the same
  stripped name (the last one is kept).
\<close>

theorem C3_decoder_inverts_archive:
  "UntarReaderToMem (tarOf [(''dump.sql'', b)]) = Inr [''dump.sql'' \<mapsto> b] \<and>
   (wellFormed s \<longrightarrow>
      (\<exists>m. UntarReaderToMem s = Inr m \<and>
           dom m = storedPath ` set (regularFiles s) \<and>
           (\<forall>i < length (regularFiles s).
              (\<forall>j. i < j \<and> j < length (regularFiles s)
                   \<longrightarrow> storedPath (regularFiles s ! j) \<noteq> storedPath (regularFiles s ! i))
              \<longrightarrow> m (storedPath (regularFiles s ! i)) = Some (snd (regularFiles s ! i)))))"
proof
  show "UntarReaderToMem (tarOf [(''dump.sql'', b)]) = Inr [''dump.sql'' \<mapsto> b]"
    by (simp add: UntarReaderToMem_def tarOf_def TrimPrefix_def)
  show "wellFormed s \<longrightarrow>
      (\<exists>m. UntarReaderToMem s = Inr m \<and>
           dom m = storedPath ` set (regularFiles s) \<and>
           (\<forall>i < length (regularFiles s).
              (\<forall>j. i < j \<and> j < length (regularFiles s)
                   \<longrightarrow> storedPath (regularFiles s ! j) \<noteq> storedPath (regularFiles s ! i))
              \<longrightarrow> m (storedPath (regularFiles s ! i)) = Some (snd (regularFiles s ! i))))"
    using UntarReaderToMem_wellFormed [of s] by blast
qed

text \<open>
  On \<open>sample\<close>: the directory, the nil header and the link are passed over, and the one
  regular file is stored under its name without the leading separator.
\<close>

theorem C3_decoder_witness:
  "wellFormed sample \<and>
   (\<exists>m. UntarReaderToMem sample = Inr m \<and> dom m = {''tmp/dump.sql''} \<and>
        m ''tmp/dump.sql'' = Some ''SELECT 1;'')"
proof -
  have w: "wellFormed sample" by (simp add: sample_def TypeReg_def)
  have r: "regularFiles sample = [(''/tmp/dump.sql'', ''SELECT 1;'')]"
    by (simp add: sample_def TypeReg_def)
  from C3_decoder_inverts_archive [of "[]" sample] w obtain m where
    m: "UntarReaderToMem sample = Inr m"
    and d: "dom m = storedPath ` set (regularFiles sample)"
    and l: "\<forall>i < length (regularFiles sample).
              (\<forall>j. i < j \<and> j < length (regularFiles sample)
                   \<longrightarrow> storedPath (regularFiles sample ! j) \<noteq> storedPath (regularFiles sample ! i))
              \<longrightarrow> m (storedPath (regularFiles sample ! i)) = Some (snd (regularFiles sample ! i))"
    by blast
  from l [rule_format, of 0] have "m ''tmp/dump.sql'' = Some ''SELECT 1;''"
    by (simp add: r storedPath_def TrimPrefix_def)
  with w m d show ?thesis by (simp add: r storedPath_def TrimPrefix_def)
qed

section \<open>Waiting for the dump\<close>


lemma firstSend_asFinished:
  "firstSend (\<lambda>k. asFinished (polls k)) k t = firstSend polls k t"
proof (induction polls k t rule: firstSend.induct)
  case (1 polls k t)
  show ?case
  proof (cases "\<not> timeout_ms < t \<and> pollErr (polls k) = None \<and> Running (polls k)")
    case True
    with 1 show ?thesis
      by (simp add: firstSend.simps [of _ k t] asFinished_def)
  next
    case False
    then show ?thesis
      by (auto simp: firstSend.simps [of _ k t] asFinished_def)
  qed
qed

lemma firstSend_prefix:
  "\<forall>i<k. Running (polls i) \<and> pollErr (polls i) = None \<Longrightarrow> pollStart polls k \<le> timeout_ms \<Longrightarrow>
   firstSend polls 0 0 = firstSend polls k (pollStart polls k)"
proof (induction k)
  case 0
  then show ?case by simp
next
  case (Suc k)
  then have "firstSend polls 0 0 = firstSend polls k (pollStart polls k)" by simp
  also have "\<dots> = firstSend polls (Suc k) (pollStart polls (Suc k))"
    using Suc.prems by (subst firstSend.simps) simp
  finally show ?case .
qed

lemma firstSend_error:
  "\<forall>i<k. Running (polls i) \<and> pollErr (polls i) = None \<Longrightarrow> pollErr (polls k) = Some e \<Longrightarrow>
   pollStart polls k \<le> timeout_ms \<Longrightarrow>
   firstSend polls 0 0 = Some (pollStart polls k + took (polls k))"
  by (simp add: firstSend_prefix) (simp add: firstSend.simps)




lemma DumpData_after_wait:
  "ContainerExecCreate b (ID c)
      [''bash'', ''-c'', ''pg_dump -U '' @ user @ '' '' @ dbName @ '' > /tmp/dump.sql''] w = (Inr execID, w1) \<Longrightarrow>
   ContainerExecStart b execID w1 = (None, w2) \<Longrightarrow>
   waitForExecToEnd b execID w2 = (evs, w3) \<Longrightarrow>
   CopyFromContainer b (ID c) ''/tmp/dump.sql'' w3 = (r, w4) \<Longrightarrow>
   DumpData b c dbName user w = (r, evs, w4)"
  by (cases r) (simp_all add: DumpData_def)

lemma errorsAsFinished_fields:
  "ContainerExecCreate (errorsAsFinished b) = ContainerExecCreate b"
  "ContainerExecStart (errorsAsFinished b) = ContainerExecStart b"
  "CopyFromContainer (errorsAsFinished b) = CopyFromContainer b"
  "Elapse (errorsAsFinished b) = Elapse b"
  by (simp_all add: errorsAsFinished_def)

lemma selectCase_errorsAsFinished:
  "selectCase (errorsAsFinished b) execID w = selectCase b execID w"
  by (simp add: selectCase_def errorsAsFinished_def firstSend_asFinished split: option.splits)

lemma waitForExecToEnd_errorsAsFinished:
  "waitForExecToEnd (errorsAsFinished b) execID w = waitForExecToEnd b execID w"
  by (simp add: waitForExecToEnd_def selectCase_errorsAsFinished errorsAsFinished_fields
        split: select_case.splits)

lemma DumpData_errorsAsFinished:
  "DumpData (errorsAsFinished b) c dbName user w = DumpData b c dbName user w"
  by (simp add: DumpData_def waitForExecToEnd_errorsAsFinished errorsAsFinished_fields
        split: prod.splits sum.splits option.splits)

lemma waitForExecToEnd_error:
  assumes "\<forall>i<k. Running (ContainerExecInspect b execID w i) \<and> pollErr (ContainerExecInspect b execID w i) = None"
    and "pollErr (ContainerExecInspect b execID w k) = Some e"
    and "pollStart (ContainerExecInspect b execID w) k + took (ContainerExecInspect b execID w k) < timeout_ms"
  shows "waitForExecToEnd b execID w =
           ([], Elapse b (pollStart (ContainerExecInspect b execID w) k + took (ContainerExecInspect b execID w k)) w)"
  using firstSend_error [of k "ContainerExecInspect b execID w" e] assms
  by (simp add: waitForExecToEnd_def selectCase_def)




text \<open>
  C8. A poll that returns an error ends the wait just as a poll that finds the command
  finished: with every failed poll replaced by the plain answer that the command is not
  running, \<^verbatim>\<open>waitForExecToEnd\<close> and \<^verbatim>\<open>DumpData\<close> do the same and return the same.
  When the first poll that does not find the command running is one that fails, and its
  answer comes before the timeout, the wait ends at that moment and logs nothing, and
  \<^verbatim>\<open>DumpData\<close> goes on to the copy at once and returns what the copy returns; the
  error of the poll is in neither result.
\<close>

theorem C8_poll_error_counts_as_finished:
  "waitForExecToEnd (errorsAsFinished b) execID w = waitForExecToEnd b execID w \<and>
   DumpData (errorsAsFinished b) c dbName user w' = DumpData b c dbName user w' \<and>
   (\<forall>k e s.
      (\<forall>i<k. Running (ContainerExecInspect b execID w i) \<and> pollErr (ContainerExecInspect b execID w i) = None) \<and>
      pollErr (ContainerExecInspect b execID w k) = Some e \<and>
      s = pollStart (ContainerExecInspect b execID w) k + took (ContainerExecInspect b execID w k) \<and>
      s < 30000
      \<longrightarrow> waitForExecToEnd b execID w = ([], Elapse b s w) \<and>
          (\<forall>w0 w1 r w4.
             ContainerExecCreate b (ID c)
               [''bash'', ''-c'', ''pg_dump -U '' @ user @ '' '' @ dbName @ '' > /tmp/dump.sql''] w0
               = (Inr execID, w1) \<and>
             ContainerExecStart b execID w1 = (None, w) \<and>
             CopyFromContainer b (ID c) ''/tmp/dump.sql'' (Elapse b s w) = (r, w4)
             \<longrightarrow> DumpData b c dbName user w0 = (r, [], w4)))"
proof (intro conjI allI impI)
  show "waitForExecToEnd (errorsAsFinished b) execID w = waitForExecToEnd b execID w"
    by (rule waitForExecToEnd_errorsAsFinished)
  show "DumpData (errorsAsFinished b) c dbName user w' = DumpData b c dbName user w'"
    by (rule DumpData_errorsAsFinished)
next
  fix k e s
  assume "(\<forall>i<k. Running (ContainerExecInspect b execID w i) \<and> pollErr (ContainerExecInspect b execID w i) = None) \<and>
      pollErr (ContainerExecInspect b execID w k) = Some e \<and>
      s = pollStart (ContainerExecInspect b execID w) k + took (ContainerExecInspect b execID w k) \<and>
      s < 30000"
  then show "waitForExecToEnd b execID w = ([], Elapse b s w)"
    using waitForExecToEnd_error [of k b execID w e] by (simp add: timeout_ms_def)
next
  fix k e s w0 w1 r w4
  assume "(\<forall>i<k. Running (ContainerExecInspect b execID w i) \<and> pollErr (ContainerExecInspect b execID w i) = None) \<and>
      pollErr (ContainerExecInspect b execID w k) = Some e \<and>
      s = pollStart (ContainerExecInspect b execID w) k + took (ContainerExecInspect b execID w k) \<and>
      s < 30000"
  then have wait: "waitForExecToEnd b execID w = ([], Elapse b s w)"
    using waitForExecToEnd_error [of k b execID w e] by (simp add: timeout_ms_def)
  assume "ContainerExecCreate b (ID c)
               [''bash'', ''-c'', ''pg_dump -U '' @ user @ '' '' @ dbName @ '' > /tmp/dump.sql''] w0
               = (Inr execID, w1) \<and>
             ContainerExecStart b execID w1 = (None, w) \<and>
             CopyFromContainer b (ID c) ''/tmp/dump.sql'' (Elapse b s w) = (r, w4)"
  with wait show "DumpData b c dbName user w0 = (r, [], w4)"
    by (intro DumpData_after_wait [where ?w1.0 = w1 and ?w2.0 = w and ?w3.0 = "Elapse b s w"]) simp_all
qed

text \<open>
  Two polls find the command running and the third fails, 530 milliseconds after the wait
  began: the dump is copied out at that moment.
\<close>

theorem C8_poll_error_witness:
  "waitForExecToEnd (polling (\<lambda>k. if k < 2 then stillRunning else inspectFailed)) ''e1'' 0 = ([], 530) \<and>
   DumpData (polling (\<lambda>k. if k < 2 then stillRunning else inspectFailed)) web ''postgres'' ''postgres'' 0
     = (Inr (tarOf [(''dump.sql'', ''SELECT 1;'')]), [], 530) \<and>
   DumpData (polling (\<lambda>k. if k < 2 then stillRunning else inspectFailed)) web ''postgres'' ''postgres'' 0
     = DumpData (errorsAsFinished (polling (\<lambda>k. if k < 2 then stillRunning else inspectFailed)))
         web ''postgres'' ''postgres'' 0"
proof -
  let ?b = "polling (\<lambda>k. if k < 2 then stillRunning else inspectFailed)"
  note C8 = C8_poll_error_counts_as_finished [of ?b "''e1''" 0 web "''postgres''" "''postgres''" 0]
  note defs = polling_def demo_def web_def broken_def stillRunning_def inspectFailed_def interval_ms_def
  have s: "pollStart (ContainerExecInspect ?b ''e1'' 0) 2 + took (ContainerExecInspect ?b ''e1'' 0 2) = 530"
    by (simp add: defs numeral_2_eq_2)
  note at2 = C8 [THEN conjunct2, THEN conjunct2, rule_format, of 2 "Err ''connection reset''" 530]
  have pre: "(\<forall>i<2. Running (ContainerExecInspect ?b ''e1'' 0 i) \<and> pollErr (ContainerExecInspect ?b ''e1'' 0 i) = None) \<and>
      pollErr (ContainerExecInspect ?b ''e1'' 0 2) = Some (Err ''connection reset'') \<and>
      530 = pollStart (ContainerExecInspect ?b ''e1'' 0) 2 + took (ContainerExecInspect ?b ''e1'' 0 2) \<and>
      (530::nat) < 30000"
    using s by (simp add: defs)
  from at2 [OF pre, THEN conjunct1]
  have 1: "waitForExecToEnd ?b ''e1'' 0 = ([], 530)"
    by (simp add: defs)
  from at2 [OF pre, THEN conjunct2, rule_format, of 0 0 "Inr (tarOf [(''dump.sql'', ''SELECT 1;'')])" 530]
  have 2: "DumpData ?b web ''postgres'' ''postgres'' 0 = (Inr (tarOf [(''dump.sql'', ''SELECT 1;'')]), [], 530)"
    by (simp add: defs)
  from C8 [THEN conjunct2, THEN conjunct1]
  have 3: "DumpData ?b web ''postgres'' ''postgres'' 0 = DumpData (errorsAsFinished ?b) web ''postgres'' ''postgres'' 0"
    by simp
  from 1 2 3 show ?thesis by simp
qed

section \<open>The backup of one container\<close>

lemma attempted_append: "attempted (xs @ ys) = attempted xs @ attempted ys"
  by (induction xs rule: attempted.induct) simp_all

lemma puts_append: "puts (xs @ ys) = puts xs @ puts ys"
  by (induction xs rule: puts.induct) simp_all

lemma waitForExecToEnd_quiet:
  "attempted (fst (waitForExecToEnd b execID w)) = [] \<and> puts (fst (waitForExecToEnd b execID w)) = []"
  by (simp add: waitForExecToEnd_def split: select_case.splits)

lemma DumpData_quiet:
  "attempted (fst (snd (DumpData b c dbName user w))) = [] \<and>
   puts (fst (snd (DumpData b c dbName user w))) = []"
proof -
  let ?cmd = "[''bash'', ''-c'', ''pg_dump -U '' @ user @ '' '' @ dbName @ '' > /tmp/dump.sql'']"
  obtain created w1 where create: "ContainerExecCreate b (ID c) ?cmd w = (created, w1)"
    by (cases "ContainerExecCreate b (ID c) ?cmd w")
  show ?thesis
  proof (cases created)
    case (Inl e)
    with create show ?thesis by (simp add: DumpData_def)
  next
    case (Inr execID)
    obtain started w2 where start: "ContainerExecStart b execID w1 = (started, w2)"
      by (cases "ContainerExecStart b execID w1")
    obtain evs w3 where wait: "waitForExecToEnd b execID w2 = (evs, w3)"
      by (cases "waitForExecToEnd b execID w2")
    obtain copied w4 where copy: "CopyFromContainer b (ID c) ''/tmp/dump.sql'' w3 = (copied, w4)"
      by (cases "CopyFromContainer b (ID c) ''/tmp/dump.sql'' w3")
    from wait waitForExecToEnd_quiet [of b execID w2]
    have "attempted evs = [] \<and> puts evs = []" by simp
    with create Inr start wait copy show ?thesis
      by (cases started; cases copied) (simp_all add: DumpData_def)
  qed
qed

lemma UploadDump_attempted: "attempted (fst (UploadDump b appName reader w)) = []"
  by (simp add: UploadDump_events split: option.splits)

lemma BackupContainer_short:
  "length (ID c) < 12 \<Longrightarrow> BackupContainer b c w = ([], w, Panicked SliceBoundsOutOfRange)"
  by (simp add: BackupContainer_def slice12_Inl)

text \<open>
  \<^verbatim>\<open>BackupContainer\<close> on an identifier of at least 12 characters, by the outcome of each
  of its steps.
\<close>

lemma BackupContainer_name_panics:
  "12 \<le> length (ID c) \<Longrightarrow> getDatabaseName b c w = (Inl p, w1) \<Longrightarrow>
   BackupContainer b c w = ([StartBackup (take 12 (ID c))], w1, Panicked p)"
  using getAppName_returns [of c]
  by (auto simp: BackupContainer_def slice12_Inr)

lemma BackupContainer_user_panics:
  "12 \<le> length (ID c) \<Longrightarrow> getDatabaseName b c w = (Inr dbName, w1) \<Longrightarrow>
   getDatabaseUser b c w1 = (Inl p, w2) \<Longrightarrow>
   BackupContainer b c w = ([StartBackup (take 12 (ID c))], w2, Panicked p)"
  using getAppName_returns [of c]
  by (auto simp: BackupContainer_def slice12_Inr)

lemma BackupContainer_dump_failed:
  "12 \<le> length (ID c) \<Longrightarrow> getDatabaseName b c w = (Inr dbName, w1) \<Longrightarrow>
   getDatabaseUser b c w1 = (Inr user, w2) \<Longrightarrow>
   DumpData b c dbName user w2 = (Inl e, evs, w3) \<Longrightarrow>
   BackupContainer b c w =
     (StartBackup (take 12 (ID c)) # evs @ [DumpFailed (take 12 (ID c)) e], w3, Returned)"
  using getAppName_returns [of c]
  by (auto simp: BackupContainer_def slice12_Inr)

lemma BackupContainer_dumped:
  "12 \<le> length (ID c) \<Longrightarrow> getAppName c = Inr name \<Longrightarrow>
   getDatabaseName b c w = (Inr dbName, w1) \<Longrightarrow>
   getDatabaseUser b c w1 = (Inr user, w2) \<Longrightarrow>
   DumpData b c dbName user w2 = (Inr reader, evs, w3) \<Longrightarrow>
   BackupContainer b c w =
     (case UploadDump b name reader w3 of
        (evs', w4, Panicked p) \<Rightarrow> (StartBackup (take 12 (ID c)) # evs @ evs', w4, Panicked p)
      | (evs', w4, Returned) \<Rightarrow>
          (StartBackup (take 12 (ID c)) # evs @ evs' @ [FinishedBackup (take 12 (ID c))],
           w4, Returned))"
  by (simp add: BackupContainer_def slice12_Inr)

lemma BackupContainer_uploaded:
  assumes "12 \<le> length (ID c)" and "getAppName c = Inr name"
    and "getDatabaseName b c w = (Inr dbName, w1)"
    and "getDatabaseUser b c w1 = (Inr user, w2)"
    and "DumpData b c dbName user w2 = (Inr reader, evs, w3)"
    and "minio b \<noteq> None"
  shows "BackupContainer b c w =
     (StartBackup (take 12 (ID c)) # evs @ fst (UploadDump b name reader w3)
        @ [FinishedBackup (take 12 (ID c))],
      fst (snd (UploadDump b name reader w3)), Returned)"
proof -
  obtain evs' w4 r where u: "UploadDump b name reader w3 = (evs', w4, r)"
    by (cases "UploadDump b name reader w3")
  with UploadDump_completion [of b name reader w3] assms(6) have "r = Returned"
    by (auto split: option.splits)
  with u show ?thesis
    by (simp add: BackupContainer_dumped [OF assms(1-5)])
qed

text \<open>
  Whatever becomes of it, a backup on an identifier of at least 12 characters logs its
  start, once; it never panics on a slice bound; and it returns when the object-store
  client exists and every successful inspect answer has its configuration.
\<close>

lemma BackupContainer_cases:
  assumes "12 \<le> length (ID c)"
  shows "attempted (fst (BackupContainer b c w)) = [take 12 (ID c)] \<and>
         snd (snd (BackupContainer b c w)) \<noteq> Panicked SliceBoundsOutOfRange \<and>
         (minio b \<noteq> None \<and> (\<forall>cid w'. fst (ContainerInspect b cid w') \<noteq> Inr None)
            \<longrightarrow> snd (snd (BackupContainer b c w)) = Returned)"
proof -
  obtain name where a: "getAppName c = Inr name"
    using getAppName_returns [OF assms] ..
  obtain n w1 where n: "getDatabaseName b c w = (n, w1)" by (cases "getDatabaseName b c w")
  show ?thesis
  proof (cases n)
    case (Inl p)
    with n getDatabaseName_panic [of b c w p] have p: "p = NilDereference" by simp
    from getDatabaseName_returns [of b c w] n Inl
    have "\<not> (\<forall>cid w'. fst (ContainerInspect b cid w') \<noteq> Inr None)" by auto
    with p show ?thesis
      using BackupContainer_name_panics [OF assms, of b w p w1] n Inl by simp
  next
    case (Inr dbName)
    obtain u w2 where u: "getDatabaseUser b c w1 = (u, w2)" by (cases "getDatabaseUser b c w1")
    show ?thesis
    proof (cases u)
      case (Inl p)
      with u getDatabaseUser_panic [of b c w1 p] have p: "p = NilDereference" by simp
      from getDatabaseUser_returns [of b c w1] u Inl
      have "\<not> (\<forall>cid w'. fst (ContainerInspect b cid w') \<noteq> Inr None)" by auto
      with p show ?thesis
        using BackupContainer_user_panics [OF assms, of b w dbName w1 p w2] n Inr u Inl by simp
    next
      case user: (Inr user)
      obtain d evs w3 where d: "DumpData b c dbName user w2 = (d, evs, w3)"
        by (cases "DumpData b c dbName user w2")
      with DumpData_quiet [of b c dbName user w2] have q: "attempted evs = []" by simp
      show ?thesis
      proof (cases d)
        case (Inl e)
        with q show ?thesis
          using BackupContainer_dump_failed [OF assms, of b w dbName w1 user w2 e evs w3] n Inr u user d
          by (simp add: attempted_append)
      next
        case reader: (Inr reader)
        obtain evs' w4 r where up: "UploadDump b name reader w3 = (evs', w4, r)"
          by (cases "UploadDump b name reader w3")
        with UploadDump_attempted [of b name reader w3] have q': "attempted evs' = []" by simp
        from up UploadDump_completion [of b name reader w3]
        have r: "r = (case minio b of None \<Rightarrow> Panicked NilDereference | Some put \<Rightarrow> Returned)"
          by simp
        from BackupContainer_dumped [OF assms a, of b w dbName w1 user w2 reader evs w3] n Inr u user d reader
        have "BackupContainer b c w =
           (case UploadDump b name reader w3 of
              (evs', w4, Panicked p) \<Rightarrow> (StartBackup (take 12 (ID c)) # evs @ evs', w4, Panicked p)
            | (evs', w4, Returned) \<Rightarrow>
                (StartBackup (take 12 (ID c)) # evs @ evs' @ [FinishedBackup (take 12 (ID c))],
                 w4, Returned))" by simp
        with up r q q' show ?thesis
          by (cases "minio b") (simp_all add: attempted_append)
      qed
    qed
  qed
qed

text \<open>
  C10. \<^verbatim>\<open>getAppName\<close> returns exactly when the override label is present, or a name
  is assigned, or the identifier has at least 12 characters: with a shorter identifier its
  fallback panics. \<^verbatim>\<open>BackupContainer\<close> returns only when the identifier has at least
  12 characters: with a shorter one it panics at its first statement, on the slice bound,
  before it has logged anything or touched the world; and that panic arises with a shorter
  identifier only. With at least 12 characters it returns whenever the object-store client
  exists and every successful inspect answer carries its configuration.
\<close>

theorem C10_short_identifier_panics:
  "((\<exists>name. getAppName c = Inr name) \<longleftrightarrow>
      (Labels c ''postgres-backup/app-name'' \<noteq> None \<or> Names c \<noteq> [] \<or> 12 \<le> length (ID c))) \<and>
   (length (ID c) < 12 \<and> Labels c ''postgres-backup/app-name'' = None \<and> Names c = []
      \<longrightarrow> getAppName c = Inl SliceBoundsOutOfRange) \<and>
   (snd (snd (BackupContainer b c w)) = Returned \<longrightarrow> 12 \<le> length (ID c)) \<and>
   (snd (snd (BackupContainer b c w)) = Panicked SliceBoundsOutOfRange \<longleftrightarrow> length (ID c) < 12) \<and>
   (length (ID c) < 12 \<longrightarrow> BackupContainer b c w = ([], w, Panicked SliceBoundsOutOfRange)) \<and>
   (12 \<le> length (ID c) \<and> minio b \<noteq> None \<and>
    (\<forall>cid w'. fst (ContainerInspect b cid w') \<noteq> Inr None)
      \<longrightarrow> snd (snd (BackupContainer b c w)) = Returned)"
proof (intro conjI)
  show "(\<exists>name. getAppName c = Inr name) \<longleftrightarrow>
      (Labels c ''postgres-backup/app-name'' \<noteq> None \<or> Names c \<noteq> [] \<or> 12 \<le> length (ID c))"
    by (auto simp: getAppName_def slice12_def split: option.splits)
  show "length (ID c) < 12 \<and> Labels c ''postgres-backup/app-name'' = None \<and> Names c = []
      \<longrightarrow> getAppName c = Inl SliceBoundsOutOfRange"
    by (simp add: getAppName_def slice12_def)
  show "snd (snd (BackupContainer b c w)) = Returned \<longrightarrow> 12 \<le> length (ID c)"
    using BackupContainer_short [of c b w]
    by (cases "12 \<le> length (ID c)") auto
  show "snd (snd (BackupContainer b c w)) = Panicked SliceBoundsOutOfRange \<longleftrightarrow> length (ID c) < 12"
    using BackupContainer_short [of c b w] BackupContainer_cases [of c b w]
    by (cases "12 \<le> length (ID c)") auto
  show "length (ID c) < 12 \<longrightarrow> BackupContainer b c w = ([], w, Panicked SliceBoundsOutOfRange)"
    by (simp add: BackupContainer_short)
  show "12 \<le> length (ID c) \<and> minio b \<noteq> None \<and>
    (\<forall>cid w'. fst (ContainerInspect b cid w') \<noteq> Inr None)
      \<longrightarrow> snd (snd (BackupContainer b c w)) = Returned"
    using BackupContainer_cases [of c b w] by blast
qed

theorem C10_short_identifier_witness:
  "getAppName \<lparr>ID = ''abcdef'', Names = [], Labels = Map.empty\<rparr> = Inl SliceBoundsOutOfRange \<and>
   BackupContainer demo \<lparr>ID = ''abcdef'', Names = [''/pg''], Labels = Map.empty\<rparr> 0
     = ([], 0, Panicked SliceBoundsOutOfRange) \<and>
   snd (snd (BackupContainer demo web 0)) = Returned"
proof -
  note C10 = C10_short_identifier_panics
  have 1: "getAppName \<lparr>ID = ''abcdef'', Names = [], Labels = Map.empty\<rparr> = Inl SliceBoundsOutOfRange"
    using C10 [of "\<lparr>ID = ''abcdef'', Names = [], Labels = Map.empty\<rparr>" demo 0,
               THEN conjunct2, THEN conjunct1]
    by simp
  have 2: "BackupContainer demo \<lparr>ID = ''abcdef'', Names = [''/pg''], Labels = Map.empty\<rparr> 0
     = ([], 0, Panicked SliceBoundsOutOfRange)"
    using C10 [of "\<lparr>ID = ''abcdef'', Names = [''/pg''], Labels = Map.empty\<rparr>" demo 0,
               THEN conjunct2, THEN conjunct2, THEN conjunct2, THEN conjunct2, THEN conjunct1]
    by simp
  have ok: "12 \<le> length (ID web) \<and> minio demo \<noteq> None \<and>
    (\<forall>cid w'. fst (ContainerInspect demo cid w') \<noteq> Inr None)"
    by (simp add: web_def demo_def)
  have 3: "snd (snd (BackupContainer demo web 0)) = Returned"
    using C10 [of web demo 0,
               THEN conjunct2, THEN conjunct2, THEN conjunct2, THEN conjunct2, THEN conjunct2] ok
    by blast
  from 1 2 3 show ?thesis by simp
qed

section \<open>The scan\<close>

lemma rangeResult_all:
  assumes "\<forall>c\<in>set cs. 12 \<le> length (ID c)" and "minio b \<noteq> None"
    and "\<forall>cid w'. fst (ContainerInspect b cid w') \<noteq> Inr None"
  shows "rangeResult b cs w =
     (concat (map (\<lambda>i. fst (BackupContainer b (cs ! i) (worldAt b cs w i))) [0..<length cs]),
      worldAt b cs w (length cs), Returned)"
  using assms(1)
proof (induction cs arbitrary: w)
  case Nil
  then show ?case by simp
next
  case (Cons c cs)
  obtain evs w1 where bc: "BackupContainer b c w = (evs, w1, Returned)"
    using BackupContainer_cases [of c b w] Cons.prems assms(2,3)
    by (cases "BackupContainer b c w") auto
  have "rangeResult b cs w1 =
     (concat (map (\<lambda>i. fst (BackupContainer b (cs ! i) (worldAt b cs w1 i))) [0..<length cs]),
      worldAt b cs w1 (length cs), Returned)"
    using Cons by simp
  with bc show ?case
    by (simp add: map_upt_Suc del: upt_Suc)
qed

lemma attempted_rangeResult:
  assumes "\<forall>c\<in>set cs. 12 \<le> length (ID c)" and "minio b \<noteq> None"
    and "\<forall>cid w'. fst (ContainerInspect b cid w') \<noteq> Inr None"
  shows "attempted (fst (rangeResult b cs w)) = map (\<lambda>c. take 12 (ID c)) cs"
  using assms(1)
proof (induction cs arbitrary: w)
  case Nil
  then show ?case by simp
next
  case (Cons c cs)
  obtain evs w1 where bc: "BackupContainer b c w = (evs, w1, Returned)"
    using BackupContainer_cases [of c b w] Cons.prems assms(2,3)
    by (cases "BackupContainer b c w") auto
  with BackupContainer_cases [of c b w] Cons.prems have "attempted evs = [take 12 (ID c)]" by simp
  moreover have "attempted (fst (rangeResult b cs w1)) = map (\<lambda>c. take 12 (ID c)) cs"
    using Cons by simp
  ultimately show ?case using bc
    by (cases "rangeResult b cs w1") (simp add: attempted_append)
qed

lemma Scan_all:
  assumes "ContainerList b w = ((cs, e), w1)" and "\<forall>c\<in>set cs. 12 \<le> length (ID c)"
    and "minio b \<noteq> None" and "\<forall>cid w'. fst (ContainerInspect b cid w') \<noteq> Inr None"
  shows "Scan b w =
           (StartScan # (case e of Some e' \<Rightarrow> [ListFailed e'] | None \<Rightarrow> [])
              @ concat (map (\<lambda>i. fst (BackupContainer b (cs ! i) (worldAt b cs w1 i))) [0..<length cs])
              @ [EndScan],
            worldAt b cs w1 (length cs), Returned)"
  using assms(1) rangeResult_all [OF assms(2-4), of w1] by (simp add: Scan_def)

lemma attempted_Scan:
  assumes "ContainerList b w = ((cs, e), w1)" and "\<forall>c\<in>set cs. 12 \<le> length (ID c)"
    and "minio b \<noteq> None" and "\<forall>cid w'. fst (ContainerInspect b cid w') \<noteq> Inr None"
  shows "attempted (fst (Scan b w)) = map (\<lambda>c. take 12 (ID c)) cs"
proof -
  have "fst (Scan b w) =
          StartScan # (case e of Some e' \<Rightarrow> [ListFailed e'] | None \<Rightarrow> []) @ fst (rangeResult b cs w1) @ [EndScan]"
    using assms(1) rangeResult_all [OF assms(2-4), of w1] by (simp add: Scan_def)
  then show ?thesis
    using attempted_rangeResult [OF assms(2-4), of w1]
    by (simp add: attempted_append split: option.splits)
qed

lemma UploadDump_put_failed:
  "minio b = Some PutObject \<Longrightarrow> Now_RFC3339 b w = (now, w1) \<Longrightarrow>
   PutObject (bucket b) (appName @ ''/'' @ now @ ''.sql'') (payload (UntarReaderToMem reader)) w1
     = ((info, Some e), w2) \<Longrightarrow>
   UploadDump b appName reader w =
     ([Put (bucket b) (appName @ ''/'' @ now @ ''.sql'') (payload (UntarReaderToMem reader)),
       UploadFailed appName e, Uploaded (Location info)], w2, Returned)"
  by (simp add: UploadDump_def Let_def)

text \<open>
  C1, as the claim states it, fails in four ways. A scan over the one container \<open>web\<close>,
  whose copied stream cannot be decoded, logs no failure and does not skip the container: it
  puts an empty object and logs the upload and the end of the backup. A scan over a
  container with the identifier \<^verbatim>\<open>abc\<close> followed by \<open>shop\<close> panics at the first. A scan
  over \<open>web\<close> and \<open>shop\<close> with no object-store client panics in the upload of the first.
  And so does a scan over the two whose inspect answers carry no configuration, in the
  resolution of the database name. In the last three \<open>shop\<close> is never attempted and the
  end of the scan is never logged.
\<close>

theorem C1_unreported_decode_failure_and_panic:
  "Scan (listing ([web], None) truncated) 0 =
     ([StartScan, StartBackup ''abcdef012345'',
       Put ''backups'' ''abcdef012345/2023-01-01T00:00:00Z.sql'' [],
       Uploaded ''abcdef012345/2023-01-01T00:00:00Z.sql'',
       FinishedBackup ''abcdef012345'', EndScan], 5, Returned) \<and>
   Scan (listing ([stub, shop], None) demo) 0 = ([StartScan], 0, Panicked SliceBoundsOutOfRange) \<and>
   Scan (listing ([web, shop], None) clientless) 0 =
     ([StartScan, StartBackup ''abcdef012345'',
       Put ''backups'' ''abcdef012345/2023-01-01T00:00:00Z.sql'' ''SELECT 1;''],
      5, Panicked NilDereference) \<and>
   Scan (listing ([web, shop], None) (inspecting (Inr None))) 0 =
     ([StartScan, StartBackup ''abcdef012345''], 0, Panicked NilDereference)"
  by (simp add: Scan_def BackupContainer_def getAppName_def getDatabaseName_def
        getDatabaseUser_def DumpData_def waitForExecToEnd_def selectCase_def firstSend.simps
        UploadDump_def UntarReaderToMem_def payload_def TrimPrefix_def TypeReg_def SplitN2_def
        slice12_def timeout_ms_def interval_ms_def Let_def tarOf_def demo_def web_def
        listing_def truncated_def clientless_def inspecting_def stub_def shop_def broken_def)

text \<open>
  C1, amended. When every listed container has an identifier of at least 12 characters, the
  object-store client exists and every successful inspect answer carries its configuration,
  the scan returns, it attempts every container of the list, in the order of the list, and
  its events are the start of the scan, the listing failure if there was one, the events of
  \<^verbatim>\<open>BackupContainer\<close> for each container in turn (each run in the world its
  predecessors have left, whatever became of them), and the end of the scan. For a container
  with such an identifier whose database name and user were resolved, a failed dump
  extraction is logged last, with the short identifier and the error, the call returns, and
  no put is issued; after a successful dump extraction, with an object-store client, the
  upload runs and the end of the backup is logged. A put that the object store answers
  with an error is logged with the application name and the error. (What follows a failed
  archive decode is not part of this statement.)
\<close>

theorem C1_scan_attempts_every_container:
  "(\<forall>cs e w1.
      ContainerList b w = ((cs, e), w1) \<and> (\<forall>c\<in>set cs. 12 \<le> length (ID c)) \<and>
      minio b \<noteq> None \<and> (\<forall>cid w'. fst (ContainerInspect b cid w') \<noteq> Inr None) \<longrightarrow>
      snd (snd (Scan b w)) = Returned \<and>
      attempted (fst (Scan b w)) = map (\<lambda>c. take 12 (ID c)) cs \<and>
      fst (Scan b w) =
        StartScan # (case e of Some e' \<Rightarrow> [ListFailed e'] | None \<Rightarrow> [])
          @ concat (map (\<lambda>i. fst (BackupContainer b (cs ! i) (worldAt b cs w1 i))) [0..<length cs])
          @ [EndScan]) \<and>
   (\<forall>dbName w1 user w2 e evs w3.
      12 \<le> length (ID c) \<and> getDatabaseName b c w' = (Inr dbName, w1) \<and>
      getDatabaseUser b c w1 = (Inr user, w2) \<and>
      DumpData b c dbName user w2 = (Inl e, evs, w3) \<longrightarrow>
      BackupContainer b c w' =
        (StartBackup (take 12 (ID c)) # evs @ [DumpFailed (take 12 (ID c)) e], w3, Returned) \<and>
      puts (fst (BackupContainer b c w')) = []) \<and>
   (\<forall>name dbName w1 user w2 reader evs w3.
      12 \<le> length (ID c) \<and> getAppName c = Inr name \<and>
      getDatabaseName b c w' = (Inr dbName, w1) \<and> getDatabaseUser b c w1 = (Inr user, w2) \<and>
      DumpData b c dbName user w2 = (Inr reader, evs, w3) \<and> minio b \<noteq> None \<longrightarrow>
      BackupContainer b c w' =
        (StartBackup (take 12 (ID c)) # evs @ fst (UploadDump b name reader w3)
           @ [FinishedBackup (take 12 (ID c))],
         fst (snd (UploadDump b name reader w3)), Returned)) \<and>
   (\<forall>PutObject now w1 info e w2.
      minio b = Some PutObject \<and> Now_RFC3339 b w'' = (now, w1) \<and>
      PutObject (bucket b) (appName @ ''/'' @ now @ ''.sql'') (payload (UntarReaderToMem reader')) w1
        = ((info, Some e), w2) \<longrightarrow>
      UploadDump b appName reader' w'' =
        ([Put (bucket b) (appName @ ''/'' @ now @ ''.sql'') (payload (UntarReaderToMem reader')),
          UploadFailed appName e, Uploaded (Location info)], w2, Returned))"
proof (intro conjI allI impI)
  fix cs e w1
  assume a: "ContainerList b w = ((cs, e), w1) \<and> (\<forall>c\<in>set cs. 12 \<le> length (ID c)) \<and>
      minio b \<noteq> None \<and> (\<forall>cid w'. fst (ContainerInspect b cid w') \<noteq> Inr None)"
  then have l: "ContainerList b w = ((cs, e), w1)" and ids: "\<forall>c\<in>set cs. 12 \<le> length (ID c)"
    and m: "minio b \<noteq> None" and cfg: "\<forall>cid w'. fst (ContainerInspect b cid w') \<noteq> Inr None"
    by simp_all
  from Scan_all [OF l ids m cfg] show "snd (snd (Scan b w)) = Returned" by simp
  from attempted_Scan [OF l ids m cfg]
  show "attempted (fst (Scan b w)) = map (\<lambda>c. take 12 (ID c)) cs" .
  from Scan_all [OF l ids m cfg] show "fst (Scan b w) =
        StartScan # (case e of Some e' \<Rightarrow> [ListFailed e'] | None \<Rightarrow> [])
          @ concat (map (\<lambda>i. fst (BackupContainer b (cs ! i) (worldAt b cs w1 i))) [0..<length cs])
          @ [EndScan]" by simp
next
  fix dbName w1 user w2 e evs w3
  assume a: "12 \<le> length (ID c) \<and> getDatabaseName b c w' = (Inr dbName, w1) \<and>
      getDatabaseUser b c w1 = (Inr user, w2) \<and>
      DumpData b c dbName user w2 = (Inl e, evs, w3)"
  then have bc: "BackupContainer b c w' =
        (StartBackup (take 12 (ID c)) # evs @ [DumpFailed (take 12 (ID c)) e], w3, Returned)"
    using BackupContainer_dump_failed [of c b w' dbName w1 user w2 e evs w3] by simp
  then show "BackupContainer b c w' =
        (StartBackup (take 12 (ID c)) # evs @ [DumpFailed (take 12 (ID c)) e], w3, Returned)" .
  from a DumpData_quiet [of b c dbName user w2] have "puts evs = []" by simp
  with bc show "puts (fst (BackupContainer b c w')) = []" by (simp add: puts_append)
next
  fix name dbName w1 user w2 reader evs w3
  assume "12 \<le> length (ID c) \<and> getAppName c = Inr name \<and>
      getDatabaseName b c w' = (Inr dbName, w1) \<and> getDatabaseUser b c w1 = (Inr user, w2) \<and>
      DumpData b c dbName user w2 = (Inr reader, evs, w3) \<and> minio b \<noteq> None"
  then show "BackupContainer b c w' =
        (StartBackup (take 12 (ID c)) # evs @ fst (UploadDump b name reader w3)
           @ [FinishedBackup (take 12 (ID c))],
         fst (snd (UploadDump b name reader w3)), Returned)"
    using BackupContainer_uploaded [of c name b w' dbName w1 user w2 reader evs w3] by simp
next
  fix PutObject now w1 info e w2
  assume "minio b = Some PutObject \<and> Now_RFC3339 b w'' = (now, w1) \<and>
      PutObject (bucket b) (appName @ ''/'' @ now @ ''.sql'') (payload (UntarReaderToMem reader')) w1
        = ((info, Some e), w2)"
  then show "UploadDump b appName reader' w'' =
        ([Put (bucket b) (appName @ ''/'' @ now @ ''.sql'') (payload (UntarReaderToMem reader')),
          UploadFailed appName e, Uploaded (Location info)], w2, Returned)"
    using UploadDump_put_failed [of b PutObject w'' now w1 appName reader' info e w2] by simp
qed

text \<open>
  The scan of \<open>demo\<close>: three containers, the second of which fails dump extraction. All
  three are attempted, the failure is logged, and the first and the third are uploaded. And
  under \<open>refusing\<close> the failed put is logged.
\<close>

theorem C1_scan_witness:
  "snd (snd (Scan demo 0)) = Returned \<and>
   attempted (fst (Scan demo 0)) = [''abcdef012345'', ''bbbbbbbbbbbb'', ''cccccccccccc''] \<and>
   BackupContainer demo broken 5 =
     ([StartBackup ''bbbbbbbbbbbb'', DumpFailed ''bbbbbbbbbbbb'' (Err ''no such container'')], 5, Returned) \<and>
   puts (fst (Scan demo 0)) =
     [(''backups'', ''abcdef012345/2023-01-01T00:00:00Z.sql'', ''SELECT 1;''),
      (''backups'', ''shop/2023-01-01T00:00:00Z.sql'', ''SELECT 1;'')] \<and>
   UploadDump refusing ''shop'' (tarOf [(''dump.sql'', ''SELECT 1;'')]) 0 =
     ([Put ''backups'' ''shop/2023-01-01T00:00:00Z.sql'' ''SELECT 1;'',
       UploadFailed ''shop'' (Err ''access denied''), Uploaded []], 0, Returned)"
proof -
  note C1 = C1_scan_attempts_every_container
  have scan: "snd (snd (Scan demo 0)) = Returned \<and>
      attempted (fst (Scan demo 0)) = map (\<lambda>c. take 12 (ID c)) [web, broken, shop]"
  proof -
    have pre: "ContainerList demo 0 = (([web, broken, shop], None), 0) \<and>
        (\<forall>c\<in>set [web, broken, shop]. 12 \<le> length (ID c)) \<and>
        minio demo \<noteq> None \<and> (\<forall>cid w'. fst (ContainerInspect demo cid w') \<noteq> Inr None)"
      by (simp add: demo_def web_def broken_def shop_def)
    from C1 [of demo 0, THEN conjunct1, rule_format, of "[web, broken, shop]" None 0, OF pre]
    show ?thesis by blast
  qed
  have dump: "12 \<le> length (ID broken) \<and>
      getDatabaseName demo broken 5 = (Inr ''orders'', 5) \<and>
      getDatabaseUser demo broken 5 = (Inr ''postgres'', 5) \<and>
      DumpData demo broken ''orders'' ''postgres'' 5 = (Inl (Err ''no such container''), [], 5)"
    by (simp add: getDatabaseName_def getDatabaseUser_def DumpData_def SplitN2_def
          demo_def broken_def)
  have failed: "BackupContainer demo broken 5 =
     ([StartBackup ''bbbbbbbbbbbb'', DumpFailed ''bbbbbbbbbbbb'' (Err ''no such container'')], 5, Returned)"
    using C1 [of demo 0 broken 5, THEN conjunct2, THEN conjunct1, rule_format,
              of "''orders''" 5 "''postgres''" 5 "Err ''no such container''" "[]" 5, OF dump]
    by (simp add: broken_def)
  have uploads: "puts (fst (Scan demo 0)) =
     [(''backups'', ''abcdef012345/2023-01-01T00:00:00Z.sql'', ''SELECT 1;''),
      (''backups'', ''shop/2023-01-01T00:00:00Z.sql'', ''SELECT 1;'')]"
    by (simp add: Scan_def BackupContainer_def getAppName_def getDatabaseName_def
          getDatabaseUser_def DumpData_def waitForExecToEnd_def selectCase_def firstSend.simps
          UploadDump_def UntarReaderToMem_def payload_def TrimPrefix_def TypeReg_def SplitN2_def
          slice12_def timeout_ms_def interval_ms_def Let_def tarOf_def demo_def web_def
          broken_def shop_def)
  have pre: "minio refusing = Some (\<lambda>bkt key body w. ((\<lparr>Location = []\<rparr>, Some (Err ''access denied'')), w)) \<and>
      Now_RFC3339 refusing 0 = (''2023-01-01T00:00:00Z'', 0) \<and>
      (\<lambda>bkt key body w. ((\<lparr>Location = []\<rparr>, Some (Err ''access denied'')), w))
         (bucket refusing) (''shop'' @ ''/'' @ ''2023-01-01T00:00:00Z'' @ ''.sql'')
         (payload (UntarReaderToMem (tarOf [(''dump.sql'', ''SELECT 1;'')]))) (0::nat)
        = ((\<lparr>Location = []\<rparr>, Some (Err ''access denied'')), 0)"
    by (simp add: refusing_def demo_def)
  have refused: "UploadDump refusing ''shop'' (tarOf [(''dump.sql'', ''SELECT 1;'')]) 0 =
     ([Put ''backups'' ''shop/2023-01-01T00:00:00Z.sql'' ''SELECT 1;'',
       UploadFailed ''shop'' (Err ''access denied''), Uploaded []], 0, Returned)"
    using C1 [of refusing 0 web 0 0 "''shop''" "tarOf [(''dump.sql'', ''SELECT 1;'')]",
              THEN conjunct2, THEN conjunct2, THEN conjunct2, rule_format, OF pre]
    by (simp add: refusing_def demo_def UntarReaderToMem_def payload_def tarOf_def TrimPrefix_def)
  from scan failed uploads refused show ?thesis
    by (simp add: web_def broken_def shop_def)
qed

text \<open>
  C7. The program does not do what the claim says when \<^verbatim>\<open>ContainerList\<close> returns
  containers beside its error: \<^verbatim>\<open>Scan\<close> prints the failure and, having no
  \<^verbatim>\<open>return\<close> there, goes on to back up every container returned.
\<close>

theorem C7_listing_error_does_not_stop_scan:
  "Scan (listing ([web], Some (Err ''json: cannot unmarshal string into Go struct field'')) demo) 0 =
     ([StartScan, ListFailed (Err ''json: cannot unmarshal string into Go struct field''),
       StartBackup ''abcdef012345'',
       Put ''backups'' ''abcdef012345/2023-01-01T00:00:00Z.sql'' ''SELECT 1;'',
       Uploaded ''abcdef012345/2023-01-01T00:00:00Z.sql'',
       FinishedBackup ''abcdef012345'', EndScan], 5, Returned)"
  by (simp add: Scan_def BackupContainer_def getAppName_def getDatabaseName_def
        getDatabaseUser_def DumpData_def waitForExecToEnd_def selectCase_def firstSend.simps
        UploadDump_def UntarReaderToMem_def payload_def TrimPrefix_def TypeReg_def SplitN2_def
        slice12_def timeout_ms_def interval_ms_def Let_def tarOf_def demo_def web_def
        listing_def broken_def)

text \<open>
  When \<^verbatim>\<open>ContainerList\<close> returns its error beside the nil slice, the scan prints the
  failure, processes nothing, logs its end and returns.
\<close>

theorem Scan_failed_listing_of_nothing:
  "ContainerList b w = (([], Some e), w1) \<Longrightarrow> Scan b w = ([StartScan, ListFailed e, EndScan], w1, Returned)"
  by (simp add: Scan_def)

theorem Scan_failed_listing_example:
  "Scan (listing ([], Some (Err ''cannot connect to the Docker daemon'')) demo) 0 =
     ([StartScan, ListFailed (Err ''cannot connect to the Docker daemon''), EndScan], 0, Returned)"
  using Scan_failed_listing_of_nothing
          [of "listing ([], Some (Err ''cannot connect to the Docker daemon'')) demo" 0
              "Err ''cannot connect to the Docker daemon''" 0]
  by (simp add: listing_def)

end
